theory Spec2Isabelle
  imports Complex_Main
begin

section \<open>Python values, errors and containers\<close>

text \<open>
  The program is \<^verbatim>\<open>runtagger.py\<close>: a Viterbi decoder for a hidden Markov model
  (\<^verbatim>\<open>viterbi\<close>), the walk back through its matrix (\<^verbatim>\<open>backtrack_viterbi_matrix\<close>)
  and the loop over the lines of the test file (\<^verbatim>\<open>tag_sentence\<close>).

  Every exception the code can raise is a value of \<open>error\<close>; a function that can raise
  returns \<open>error + 'a\<close>, with \<open>Inl\<close> for the exception. A Python \<open>str\<close> is a
  \<open>string\<close>, one \<open>char\<close> per code point (code points below 256).
\<close>

datatype error = ZeroDivisionError | ValueError | KeyError | IndexError | TypeError

definition sum_bind :: "error + 'a \<Rightarrow> ('a \<Rightarrow> error + 'b) \<Rightarrow> error + 'b" where
  "sum_bind r f = (case r of Inl e \<Rightarrow> Inl e | Inr x \<Rightarrow> f x)"

text \<open>
  A cell of the matrix is the dictionary
  \<^verbatim>\<open>{PROBABILITY: ..., BACKPOINTER: ...}\<close>; the backpointer is a state or \<open>None\<close>.
\<close>

record cell =
  probability :: real
  backpointer :: "string option"

text \<open>
  \<^verbatim>\<open>V[t]\<close> is a dictionary from states to cells. Python dictionaries keep insertion
  order and \<^verbatim>\<open>backtrack_viterbi_matrix\<close> iterates over one, so a row is an association
  list in insertion order. \<open>dict_set\<close> is \<^verbatim>\<open>d[k] = v\<close>: an existing key keeps its
  place, a new key goes to the end. \<open>dict_item\<close> is \<^verbatim>\<open>d[k]\<close>.
\<close>

type_synonym row = "(string \<times> cell) list"
type_synonym trellis = "row list"

fun dict_set :: "(string \<times> 'v) list \<Rightarrow> string \<Rightarrow> 'v \<Rightarrow> (string \<times> 'v) list" where
  "dict_set [] k v = [(k, v)]"
| "dict_set ((k', v') # d) k v =
     (if k' = k then (k, v) # d else (k', v') # dict_set d k v)"

definition dict_item :: "(string \<times> 'v) list \<Rightarrow> string \<Rightarrow> error + 'v" where
  "dict_item d k = (case map_of d k of None \<Rightarrow> Inl KeyError | Some v \<Rightarrow> Inr v)"

text \<open>
  The tables of the model come from \<^verbatim>\<open>json.loads\<close> and are only looked up, so they
  are maps. \<open>table_item\<close> is \<^verbatim>\<open>d[k]\<close>, \<open>table_get\<close> is \<^verbatim>\<open>d.get(k, default)\<close>.
\<close>

type_synonym table = "string \<rightharpoonup> real"

definition table_item :: "(string \<rightharpoonup> 'v) \<Rightarrow> string \<Rightarrow> error + 'v" where
  "table_item d k = (case d k of None \<Rightarrow> Inl KeyError | Some v \<Rightarrow> Inr v)"

definition table_get :: "table \<Rightarrow> string \<Rightarrow> real \<Rightarrow> real" where
  "table_get d k fallback = (case d k of None \<Rightarrow> fallback | Some v \<Rightarrow> v)"

text \<open>\<^verbatim>\<open>xs[i]\<close> for an index that is not negative.\<close>

definition list_item :: "'a list \<Rightarrow> nat \<Rightarrow> error + 'a" where
  "list_item xs i = (if i < length xs then Inr (xs ! i) else Inl IndexError)"

text \<open>
  The builtin \<^verbatim>\<open>max\<close> over a sequence: it raises on an empty one, and otherwise keeps
  the first item and replaces it by every later item that is greater.
\<close>

definition python_max :: "real list \<Rightarrow> error + real" where
  "python_max xs =
     (case xs of
        [] \<Rightarrow> Inl ValueError
      | x # rest \<Rightarrow> Inr (foldl (\<lambda>m y. if y > m then y else m) x rest))"

text \<open>A list comprehension whose element expression can raise.\<close>

fun comprehension :: "('a \<Rightarrow> error + 'b) \<Rightarrow> 'a list \<Rightarrow> error + 'b list" where
  "comprehension f [] = Inr []"
| "comprehension f (x # xs) =
     sum_bind (f x) (\<lambda>y. sum_bind (comprehension f xs) (\<lambda>ys. Inr (y # ys)))"

section \<open>Floating-point arithmetic\<close>

text \<open>
  Python's floats are doubles. A finite double is a real number, and \<^verbatim>\<open>==\<close>,
  \<^verbatim>\<open><\<close> and \<^verbatim>\<open>>\<close> on finite doubles are those of the reals, so a float is a
  \<open>real\<close>. The results of \<^verbatim>\<open>+\<close>, \<^verbatim>\<open>*\<close>, \<^verbatim>\<open>/\<close> and \<^verbatim>\<open>math.log\<close> are rounded,
  and a product can underflow to zero: these four operations are the fields of an
  \<open>arith\<close>, which every function that computes with floats takes as its first
  argument. Nothing is assumed about them, so a theorem stated for every \<open>arith\<close>
  holds for the operations of the machine, rounding and underflow included. \<open>exact\<close>
  is the arithmetic without rounding: an example evaluated with it has sums that a
  double holds exactly (small integers), or compares scores whose gaps are far above a
  rounding error. A sum that overflows is an infinity, which compares like a real beyond
  every finite double. NaN is not a float of the model: it is not a log-probability, and
  no operation of the program produces it from log-probabilities.
\<close>

record arith =
  fadd :: "real \<Rightarrow> real \<Rightarrow> real"
  fmul :: "real \<Rightarrow> real \<Rightarrow> real"
  fdiv :: "real \<Rightarrow> real \<Rightarrow> real"
  flog :: "real \<Rightarrow> real"

definition exact :: arith where
  "exact = \<lparr>fadd = (+), fmul = (*), fdiv = (/), flog = ln\<rparr>"

text \<open>
  Two arithmetics that are not exact, each with one effect of the doubles. \<open>flushing\<close>
  underflows: a quotient or a product below \<open>10^-330\<close> in absolute value is zero, as
  every real below \<open>2^-1075\<close> is when it is rounded to a double. \<open>grid\<close> rounds its
  sums to a multiple of \<open>2^-52\<close>, the spacing of the doubles between 1 and 2: the sum
  of \<open>-1\<close> and \<open>-2^-53\<close> is \<open>-1\<close>, as it is on the machine.
\<close>

definition flushing :: arith where
  "flushing =
     \<lparr>fadd = (+),
      fmul = (\<lambda>x y. if \<bar>x * y\<bar> < 1 / 10 ^ 330 then 0 else x * y),
      fdiv = (\<lambda>x y. if \<bar>x / y\<bar> < 1 / 10 ^ 330 then 0 else x / y),
      flog = ln\<rparr>"

definition grid :: arith where
  "grid =
     \<lparr>fadd = (\<lambda>x y. real_of_int (round ((x + y) * 2 ^ 52)) / 2 ^ 52),
      fmul = (*), fdiv = (/), flog = ln\<rparr>"

section \<open>Smoothing\<close>

definition K :: real where
  "K = 0.01"

definition math_log :: "arith \<Rightarrow> real \<Rightarrow> error + real" where
  "math_log A x = (if x \<le> 0 then Inl ValueError else Inr (flog A x))"

text \<open>
  \<^verbatim>\<open>math.log(1/count * K)\<close>, the expression of lines 19 and 20: the division raises
  on a zero count, the logarithm on an argument that is not positive, which is the
  product for a negative count and for a count so large that the product underflows to
  zero.
\<close>

definition unknown_prob :: "arith \<Rightarrow> int \<Rightarrow> error + real" where
  "unknown_prob A count =
     (if count = 0 then Inl ZeroDivisionError
      else math_log A (fmul A (fdiv A 1 (real_of_int count)) K))"

section \<open>The Viterbi matrix\<close>

text \<open>\<^verbatim>\<open>V[t][state] = c\<close>.\<close>

definition set_cell :: "trellis \<Rightarrow> nat \<Rightarrow> string \<Rightarrow> cell \<Rightarrow> error + trellis" where
  "set_cell V t state c =
     (if t < length V then Inr (V[t := dict_set (V ! t) state c]) else Inl IndexError)"

text \<open>
  The expression of lines 25 to 26:
  \<^verbatim>\<open>initial_state_probability[state] + emission_probability[state].get(observation[0], unknown_word_prob)\<close>.
\<close>

definition initial_prob ::
  "arith \<Rightarrow> string list \<Rightarrow> table \<Rightarrow> (string \<rightharpoonup> table) \<Rightarrow> real \<Rightarrow> string \<Rightarrow> error + real" where
  "initial_prob A observation initial_state_probability emission_probability
     unknown_word_prob state =
     sum_bind (table_item initial_state_probability state) (\<lambda>initial.
     sum_bind (table_item emission_probability state) (\<lambda>emission.
     sum_bind (list_item observation 0) (\<lambda>token.
     Inr (fadd A initial (table_get emission token unknown_word_prob)))))"

text \<open>
  Lines 23 to 28: the loop over the states that fills \<^verbatim>\<open>V[0]\<close>.
\<close>

fun initial_loop ::
  "arith \<Rightarrow> string list \<Rightarrow> table \<Rightarrow> (string \<rightharpoonup> table) \<Rightarrow> real \<Rightarrow> string list \<Rightarrow> trellis
     \<Rightarrow> error + trellis" where
  "initial_loop A observation initial_state_probability emission_probability
     unknown_word_prob [] V = Inr V"
| "initial_loop A observation initial_state_probability emission_probability
     unknown_word_prob (state # rest) V =
     sum_bind (initial_prob A observation initial_state_probability emission_probability
        unknown_word_prob state) (\<lambda>p.
     sum_bind (set_cell V 0 state \<lparr>probability = p, backpointer = None\<rparr>) (\<lambda>V'.
     initial_loop A observation initial_state_probability emission_probability
       unknown_word_prob rest V'))"

text \<open>
  The expression of lines 34 to 35 and 43 to 44:
  \<^verbatim>\<open>V[t-1][prev_state][PROBABILITY] + transition_probability[prev_state].get(state, unknown_state_prob)\<close>.
  It is only evaluated for \<open>t \<ge> 1\<close>.
\<close>

definition transition_prob ::
  "arith \<Rightarrow> trellis \<Rightarrow> nat \<Rightarrow> (string \<rightharpoonup> table) \<Rightarrow> real \<Rightarrow> string \<Rightarrow> string \<Rightarrow> error + real" where
  "transition_prob A V t transition_probability unknown_state_prob state prev_state =
     sum_bind (list_item V (t - 1)) (\<lambda>prev_row.
     sum_bind (dict_item prev_row prev_state) (\<lambda>prev_cell.
     sum_bind (table_item transition_probability prev_state) (\<lambda>transition.
     Inr (fadd A (probability prev_cell)
            (table_get transition state unknown_state_prob)))))"

text \<open>
  Lines 42 to 47: the loop over the predecessors that writes the cell. There is no
  \<^verbatim>\<open>break\<close>: every predecessor whose score equals the maximum writes the cell again.
\<close>

fun backpointer_loop ::
  "arith \<Rightarrow> nat \<Rightarrow> (string \<rightharpoonup> table) \<Rightarrow> real \<Rightarrow> string \<Rightarrow> real \<Rightarrow> real \<Rightarrow> string list \<Rightarrow> trellis
     \<Rightarrow> error + trellis" where
  "backpointer_loop A t transition_probability unknown_state_prob state
     max_transition_prob max_emission_prob [] V = Inr V"
| "backpointer_loop A t transition_probability unknown_state_prob state
     max_transition_prob max_emission_prob (prev_state # rest) V =
     sum_bind (transition_prob A V t transition_probability unknown_state_prob state prev_state)
       (\<lambda>p.
     sum_bind
       (if p = max_transition_prob
        then set_cell V t state
               \<lparr>probability = max_emission_prob, backpointer = Some prev_state\<rparr>
        else Inr V) (\<lambda>V'.
     backpointer_loop A t transition_probability unknown_state_prob state
       max_transition_prob max_emission_prob rest V'))"

text \<open>Lines 33 to 47: the loop over the states at step \<open>t\<close>.\<close>

fun state_loop ::
  "arith \<Rightarrow> string list \<Rightarrow> string list \<Rightarrow> (string \<rightharpoonup> table) \<Rightarrow> (string \<rightharpoonup> table) \<Rightarrow> real \<Rightarrow> real
     \<Rightarrow> nat \<Rightarrow> string list \<Rightarrow> trellis \<Rightarrow> error + trellis" where
  "state_loop A observation states emission_probability transition_probability
     unknown_word_prob unknown_state_prob t [] V = Inr V"
| "state_loop A observation states emission_probability transition_probability
     unknown_word_prob unknown_state_prob t (state # rest) V =
     sum_bind (comprehension
        (transition_prob A V t transition_probability unknown_state_prob state) states)
       (\<lambda>probs.
     sum_bind (python_max probs) (\<lambda>max_transition_prob.
     sum_bind (table_item emission_probability state) (\<lambda>emission.
     sum_bind (list_item observation t) (\<lambda>token.
     sum_bind (backpointer_loop A t transition_probability unknown_state_prob state
        max_transition_prob
        (fadd A max_transition_prob (table_get emission token unknown_word_prob)) states V)
       (\<lambda>V'.
     state_loop A observation states emission_probability transition_probability
       unknown_word_prob unknown_state_prob t rest V')))))"

text \<open>
  Lines 30 to 47: the loop over \<^verbatim>\<open>range(1, len(observation))\<close>; each step appends an
  empty row and fills it.
\<close>

fun time_loop ::
  "arith \<Rightarrow> string list \<Rightarrow> string list \<Rightarrow> (string \<rightharpoonup> table) \<Rightarrow> (string \<rightharpoonup> table) \<Rightarrow> real \<Rightarrow> real
     \<Rightarrow> nat list \<Rightarrow> trellis \<Rightarrow> error + trellis" where
  "time_loop A observation states emission_probability transition_probability
     unknown_word_prob unknown_state_prob [] V = Inr V"
| "time_loop A observation states emission_probability transition_probability
     unknown_word_prob unknown_state_prob (t # ts) V =
     sum_bind (state_loop A observation states emission_probability transition_probability
        unknown_word_prob unknown_state_prob t states (V @ [[]])) (\<lambda>V'.
     time_loop A observation states emission_probability transition_probability
       unknown_word_prob unknown_state_prob ts V')"

text \<open>
  Lines 18 to 47 of \<^verbatim>\<open>viterbi\<close>: the two smoothing values and the matrix \<open>V\<close>.
\<close>

definition viterbi_matrix ::
  "arith \<Rightarrow> string list \<Rightarrow> int \<Rightarrow> string list \<Rightarrow> table \<Rightarrow> (string \<rightharpoonup> table) \<Rightarrow> (string \<rightharpoonup> table)
     \<Rightarrow> error + trellis" where
  "viterbi_matrix A observation distinct_word_count states initial_state_probability
     emission_probability transition_probability =
     sum_bind (unknown_prob A distinct_word_count) (\<lambda>unknown_word_prob.
     sum_bind (unknown_prob A (int (length states))) (\<lambda>unknown_state_prob.
     sum_bind (initial_loop A observation initial_state_probability emission_probability
        unknown_word_prob states [[]]) (\<lambda>V.
     time_loop A observation states emission_probability transition_probability
       unknown_word_prob unknown_state_prob [1..<length observation] V)))"

section \<open>Backtracking\<close>

text \<open>
  Lines 63 to 67: the loop over \<^verbatim>\<open>V[-1].items()\<close> that stops at the first cell whose
  probability equals the maximum. It returns \<^verbatim>\<open>tags\<close> and \<^verbatim>\<open>pre_tag\<close>. The items
  of \<^verbatim>\<open>tags\<close> are states or \<open>None\<close> (a backpointer of row 0).
\<close>

fun final_loop ::
  "row \<Rightarrow> real \<Rightarrow> string option list \<Rightarrow> string option
     \<Rightarrow> string option list \<times> string option" where
  "final_loop [] max_probability tags pre_tag = (tags, pre_tag)"
| "final_loop ((state, stage) # rest) max_probability tags pre_tag =
     (if probability stage = max_probability then (tags @ [Some state], Some state)
      else final_loop rest max_probability tags pre_tag)"

text \<open>
  Lines 69 to 72: the loop over \<^verbatim>\<open>range(len(V) - 2, -1, -1)\<close>. No key of a row is
  \<open>None\<close>, so \<^verbatim>\<open>V[t+1][None]\<close> raises KeyError.
\<close>

fun walk_loop ::
  "trellis \<Rightarrow> nat list \<Rightarrow> string option list \<Rightarrow> string option
     \<Rightarrow> error + string option list" where
  "walk_loop V [] tags pre_tag = Inr tags"
| "walk_loop V (t # ts) tags pre_tag =
     sum_bind (list_item V (t + 1)) (\<lambda>later_row.
     sum_bind (case pre_tag of None \<Rightarrow> Inl KeyError | Some k \<Rightarrow> dict_item later_row k)
       (\<lambda>stage.
     walk_loop V ts (tags @ [backpointer stage]) (backpointer stage)))"

definition backtrack_viterbi_matrix :: "trellis \<Rightarrow> error + string option list" where
  "backtrack_viterbi_matrix V =
     sum_bind (if V = [] then Inl IndexError else Inr (last V)) (\<lambda>last_row.
     sum_bind (python_max (map (\<lambda>item. probability (snd item)) last_row))
       (\<lambda>max_probability.
     (case final_loop last_row max_probability [] (Some ''RDM'') of
        (tags, pre_tag) \<Rightarrow>
          sum_bind (walk_loop V (rev [0..<length V - 1]) tags pre_tag) (\<lambda>tags'.
          Inr (rev tags')))))"

section \<open>The output line\<close>

text \<open>
  Lines 52 to 53: \<^verbatim>\<open>output += observation[i] + '/' + tags[i] + " "\<close>; adding
  \<open>None\<close> to a string raises TypeError.
\<close>

fun output_loop ::
  "string list \<Rightarrow> string option list \<Rightarrow> nat list \<Rightarrow> string \<Rightarrow> error + string" where
  "output_loop observation tags [] output = Inr output"
| "output_loop observation tags (i # rest) output =
     sum_bind (list_item observation i) (\<lambda>token.
     sum_bind (list_item tags i) (\<lambda>tag.
     (case tag of
        None \<Rightarrow> Inl TypeError
      | Some tag' \<Rightarrow>
          output_loop observation tags rest (output @ token @ ''/'' @ tag' @ '' ''))))"

definition viterbi ::
  "arith \<Rightarrow> string list \<Rightarrow> int \<Rightarrow> string list \<Rightarrow> table \<Rightarrow> (string \<rightharpoonup> table) \<Rightarrow> (string \<rightharpoonup> table)
     \<Rightarrow> error + string" where
  "viterbi A observation distinct_word_count states initial_state_probability
     emission_probability transition_probability =
     sum_bind (viterbi_matrix A observation distinct_word_count states
        initial_state_probability emission_probability transition_probability) (\<lambda>V.
     sum_bind (backtrack_viterbi_matrix V) (\<lambda>tags.
     sum_bind (output_loop observation tags [0..<length observation] []) (\<lambda>output.
     Inr (butlast output))))"

section \<open>The lines of the test file\<close>

text \<open>
  \<^verbatim>\<open>str.isspace\<close> on the code points below 256, \<^verbatim>\<open>line.strip()\<close> and
  \<^verbatim>\<open>s.split(" ")\<close>, which cuts at every single space and never returns an empty list.
\<close>

definition isspace :: "char \<Rightarrow> bool" where
  "isspace c =
     (let n = (of_char c :: nat)
      in (9 \<le> n \<and> n \<le> 13) \<or> (28 \<le> n \<and> n \<le> 32) \<or> n = 133 \<or> n = 160)"

definition strip :: "string \<Rightarrow> string" where
  "strip s = rev (dropWhile isspace (rev (dropWhile isspace s)))"

fun split_space :: "string \<Rightarrow> string list" where
  "split_space [] = [[]]"
| "split_space (c # cs) =
     (if c = CHR '' '' then [] # split_space cs
      else (case split_space cs of
              [] \<Rightarrow> [[c]]
            | w # ws \<Rightarrow> (c # w) # ws))"

text \<open>
  Lines 93 to 98: the loop over \<^verbatim>\<open>test.readlines()\<close>; the model's tables are read
  before it and are parameters here.
\<close>

fun line_loop ::
  "arith \<Rightarrow> int \<Rightarrow> string list \<Rightarrow> table \<Rightarrow> (string \<rightharpoonup> table) \<Rightarrow> (string \<rightharpoonup> table)
     \<Rightarrow> string list \<Rightarrow> string list \<Rightarrow> error + string list" where
  "line_loop A vocabulary_len states initial_state_probability emission_probability
     transition_probability [] result = Inr result"
| "line_loop A vocabulary_len states initial_state_probability emission_probability
     transition_probability (line # rest) result =
     sum_bind (viterbi A (split_space (strip line)) vocabulary_len states
        initial_state_probability emission_probability transition_probability) (\<lambda>output.
     line_loop A vocabulary_len states initial_state_probability emission_probability
       transition_probability rest (result @ [output]))"

text \<open>
  \<^verbatim>\<open>tag_sentence\<close> from the lines of the test file to the text written to the
  output file: every item of \<^verbatim>\<open>result\<close> followed by a newline.
\<close>

definition tag_sentence ::
  "arith \<Rightarrow> string list \<Rightarrow> int \<Rightarrow> string list \<Rightarrow> table \<Rightarrow> (string \<rightharpoonup> table) \<Rightarrow> (string \<rightharpoonup> table)
     \<Rightarrow> error + string" where
  "tag_sentence A test_lines vocabulary_len states initial_state_probability
     emission_probability transition_probability =
     sum_bind (line_loop A vocabulary_len states initial_state_probability
        emission_probability transition_probability test_lines []) (\<lambda>result.
     Inr (concat (map (\<lambda>line. line @ [CHR 0x0A]) result)))"

section \<open>Well-formed models\<close>

text \<open>
  The spec's model: a vocabulary size and a state set, not empty and with no state
  twice, for which the arguments \<^verbatim>\<open>1/count * K\<close> of the two logarithms of lines 19
  and 20 are positive, and an initial, an emission and a transition table with an entry
  for every state. In exact arithmetic the arguments are positive when the vocabulary
  size is; on the machine a vocabulary size beyond about \<open>4e321\<close> makes the product
  underflow to zero. A model that misses one of these raises in \<^verbatim>\<open>viterbi\<close>.
\<close>

definition smoothing_argument :: "arith \<Rightarrow> real \<Rightarrow> real" where
  "smoothing_argument A count = fmul A (fdiv A 1 count) K"

definition wellformed_model ::
  "arith \<Rightarrow> int \<Rightarrow> string list \<Rightarrow> table \<Rightarrow> (string \<rightharpoonup> table) \<Rightarrow> (string \<rightharpoonup> table) \<Rightarrow> bool" where
  "wellformed_model A distinct_word_count states initial_state_probability
     emission_probability transition_probability =
     (distinct_word_count \<noteq> 0 \<and>
      0 < smoothing_argument A (real_of_int distinct_word_count) \<and>
      states \<noteq> [] \<and> 0 < smoothing_argument A (real (length states)) \<and>
      distinct states \<and>
      set states \<subseteq> dom initial_state_probability \<and>
      set states \<subseteq> dom emission_probability \<and>
      set states \<subseteq> dom transition_probability)"

section \<open>The matrix in closed form\<close>

text \<open>
  What the loops compute for a well-formed model, as plain functions: the row of step 0,
  the row that follows a row, and the rows for the rest of the tokens. They are used in
  the proofs only; the lemmas below show that \<open>viterbi_matrix\<close> returns exactly this.
\<close>

definition initial_score :: "arith \<Rightarrow> table \<Rightarrow> (string \<rightharpoonup> table) \<Rightarrow> real \<Rightarrow> string \<Rightarrow> string \<Rightarrow> real" where
  "initial_score A init em uw token s = fadd A (the (init s)) (table_get (the (em s)) token uw)"

definition initial_row :: "arith \<Rightarrow> table \<Rightarrow> (string \<rightharpoonup> table) \<Rightarrow> real \<Rightarrow> string \<Rightarrow> string list \<Rightarrow> row" where
  "initial_row A init em uw token states =
     map (\<lambda>s. (s, \<lparr>probability = initial_score A init em uw token s, backpointer = None\<rparr>)) states"

definition score :: "arith \<Rightarrow> row \<Rightarrow> (string \<rightharpoonup> table) \<Rightarrow> real \<Rightarrow> string \<Rightarrow> string \<Rightarrow> real" where
  "score A prev tr us s p =
     fadd A (probability (the (map_of prev p))) (table_get (the (tr p)) s us)"

definition best_score :: "arith \<Rightarrow> row \<Rightarrow> string list \<Rightarrow> (string \<rightharpoonup> table) \<Rightarrow> real \<Rightarrow> string \<Rightarrow> real" where
  "best_score A prev states tr us s = Max (set (map (score A prev tr us s) states))"

definition next_cell ::
  "arith \<Rightarrow> row \<Rightarrow> string list \<Rightarrow> (string \<rightharpoonup> table) \<Rightarrow> (string \<rightharpoonup> table) \<Rightarrow> real \<Rightarrow> real \<Rightarrow> string
     \<Rightarrow> string \<Rightarrow> cell" where
  "next_cell A prev states em tr uw us token s =
     \<lparr>probability = fadd A (best_score A prev states tr us s) (table_get (the (em s)) token uw),
      backpointer =
        Some (last (filter (\<lambda>p. score A prev tr us s p = best_score A prev states tr us s) states))\<rparr>"

definition next_row ::
  "arith \<Rightarrow> row \<Rightarrow> string list \<Rightarrow> (string \<rightharpoonup> table) \<Rightarrow> (string \<rightharpoonup> table) \<Rightarrow> real \<Rightarrow> real \<Rightarrow> string
     \<Rightarrow> row" where
  "next_row A prev states em tr uw us token =
     map (\<lambda>s. (s, next_cell A prev states em tr uw us token s)) states"

fun rows_from ::
  "arith \<Rightarrow> row \<Rightarrow> string list \<Rightarrow> (string \<rightharpoonup> table) \<Rightarrow> (string \<rightharpoonup> table) \<Rightarrow> real \<Rightarrow> real
     \<Rightarrow> string list \<Rightarrow> trellis" where
  "rows_from A prev states em tr uw us [] = []"
| "rows_from A prev states em tr uw us (token # rest) =
     next_row A prev states em tr uw us token
       # rows_from A (next_row A prev states em tr uw us token) states em tr uw us rest"

definition closed_trellis ::
  "arith \<Rightarrow> string list \<Rightarrow> int \<Rightarrow> string list \<Rightarrow> table \<Rightarrow> (string \<rightharpoonup> table) \<Rightarrow> (string \<rightharpoonup> table) \<Rightarrow> trellis" where
  "closed_trellis A obs n states init em tr =
     (let uw = flog A (smoothing_argument A (real_of_int n));
          us = flog A (smoothing_argument A (real (length states)));
          r = initial_row A init em uw (hd obs) states
      in r # rows_from A r states em tr uw us (tl obs))"

text \<open>
  The shape of a matrix that \<open>backtrack_viterbi_matrix\<close> walks without raising: every
  row has the states as its keys, in order, and from step 1 on every backpointer is a
  state.
\<close>

definition step_row_ok :: "string list \<Rightarrow> row \<Rightarrow> bool" where
  "step_row_ok states r =
     (map fst r = states \<and> list_all (\<lambda>item. backpointer (snd item) \<in> Some ` set states) r)"

definition trellis_ok :: "string list \<Rightarrow> trellis \<Rightarrow> bool" where
  "trellis_ok states V =
     (V \<noteq> [] \<and> states \<noteq> [] \<and> distinct states \<and> map fst (hd V) = states \<and>
      list_all (step_row_ok states) (tl V))"

text \<open>The output line: \<open>token/tag\<close> pairs with one space between two pairs.\<close>

fun join_spaces :: "string list \<Rightarrow> string" where
  "join_spaces [] = []"
| "join_spaces [x] = x"
| "join_spaces (x # y # zs) = x @ '' '' @ join_spaces (y # zs)"

definition pair_text :: "string \<times> string \<Rightarrow> string" where
  "pair_text p = fst p @ ''/'' @ snd p"

section \<open>Concrete models\<close>

text \<open>
  A model with two states whose tables know both tokens, and a model in which every
  score ties, with the matrices of the observations \<open>a b\<close> and \<open>b a\<close>. All their
  values are small integers, which the doubles add without rounding.
\<close>

definition ex_states :: "string list" where
  "ex_states = [''N'', ''V'']"

definition ex_initial :: table where
  "ex_initial = [''N'' \<mapsto> -1, ''V'' \<mapsto> -2]"

definition ex_emission :: "string \<rightharpoonup> table" where
  "ex_emission =
     [''N'' \<mapsto> [''a'' \<mapsto> -1, ''b'' \<mapsto> -3], ''V'' \<mapsto> [''a'' \<mapsto> -3, ''b'' \<mapsto> -1]]"

definition ex_transition :: "string \<rightharpoonup> table" where
  "ex_transition =
     [''N'' \<mapsto> [''N'' \<mapsto> -2, ''V'' \<mapsto> -1], ''V'' \<mapsto> [''N'' \<mapsto> -1, ''V'' \<mapsto> -3]]"

definition ex_observation :: "string list" where
  "ex_observation = [''a'', ''b'']"

definition tie_initial :: table where
  "tie_initial = [''N'' \<mapsto> -1, ''V'' \<mapsto> -1]"

definition tie_emission :: "string \<rightharpoonup> table" where
  "tie_emission =
     [''N'' \<mapsto> [''a'' \<mapsto> -1, ''b'' \<mapsto> -1], ''V'' \<mapsto> [''a'' \<mapsto> -1, ''b'' \<mapsto> -1]]"

definition tie_transition :: "string \<rightharpoonup> table" where
  "tie_transition =
     [''N'' \<mapsto> [''N'' \<mapsto> -1, ''V'' \<mapsto> -1], ''V'' \<mapsto> [''N'' \<mapsto> -1, ''V'' \<mapsto> -1]]"

definition tie_trellis :: trellis where
  "tie_trellis =
     [[(''N'', \<lparr>probability = -2, backpointer = None\<rparr>),
       (''V'', \<lparr>probability = -2, backpointer = None\<rparr>)],
      [(''N'', \<lparr>probability = -4, backpointer = Some ''V''\<rparr>),
       (''V'', \<lparr>probability = -4, backpointer = Some ''V''\<rparr>)]]"

definition ex_trellis :: trellis where
  "ex_trellis =
     [[(''N'', \<lparr>probability = -2, backpointer = None\<rparr>),
       (''V'', \<lparr>probability = -5, backpointer = None\<rparr>)],
      [(''N'', \<lparr>probability = -7, backpointer = Some ''N''\<rparr>),
       (''V'', \<lparr>probability = -4, backpointer = Some ''N''\<rparr>)]]"

definition swap_trellis :: trellis where
  "swap_trellis =
     [[(''N'', \<lparr>probability = -4, backpointer = None\<rparr>),
       (''V'', \<lparr>probability = -3, backpointer = None\<rparr>)],
      [(''N'', \<lparr>probability = -5, backpointer = Some ''V''\<rparr>),
       (''V'', \<lparr>probability = -8, backpointer = Some ''N''\<rparr>)]]"

text \<open>
  A model whose scores differ by less than a rounding error. With \<open>near_emission\<close> the
  exact initial scores of the token \<open>a\<close> are \<open>-1 - 2^-53\<close> for \<open>N\<close> and \<open>-1\<close> for
  \<open>V\<close>; with \<open>flat_emission\<close> and \<open>near_transition\<close> the exact scores of the
  predecessors of \<open>N\<close> are \<open>-1\<close> for \<open>N\<close> and \<open>-1 - 2^-53\<close> for \<open>V\<close>. The doubles
  computed by the machine are \<open>-1\<close> in all four places. \<open>near_trellis\<close> is the matrix
  of the observation \<open>a a\<close> computed with the rounded sums.
\<close>

definition near_initial :: table where
  "near_initial = [''N'' \<mapsto> -1, ''V'' \<mapsto> -1]"

definition near_emission :: "string \<rightharpoonup> table" where
  "near_emission = [''N'' \<mapsto> [''a'' \<mapsto> - (1 / 2 ^ 53)], ''V'' \<mapsto> [''a'' \<mapsto> 0]]"

definition flat_emission :: "string \<rightharpoonup> table" where
  "flat_emission = [''N'' \<mapsto> [''a'' \<mapsto> 0], ''V'' \<mapsto> [''a'' \<mapsto> 0]]"

definition near_transition :: "string \<rightharpoonup> table" where
  "near_transition =
     [''N'' \<mapsto> [''N'' \<mapsto> 0, ''V'' \<mapsto> 0], ''V'' \<mapsto> [''N'' \<mapsto> - (1 / 2 ^ 53), ''V'' \<mapsto> 0]]"

definition near_trellis :: trellis where
  "near_trellis =
     [[(''N'', \<lparr>probability = -1, backpointer = None\<rparr>),
       (''V'', \<lparr>probability = -1, backpointer = None\<rparr>)],
      [(''N'', \<lparr>probability = -1, backpointer = Some ''V''\<rparr>),
       (''V'', \<lparr>probability = -1, backpointer = Some ''V''\<rparr>)]]"

text \<open>
  The scenario of the spec: states \<open>N\<close> and \<open>V\<close>, a vocabulary of 10 words, and
  tables of logarithms.
\<close>

definition dog_states :: "string list" where
  "dog_states = [''N'', ''V'']"

definition dog_initial :: table where
  "dog_initial = [''N'' \<mapsto> ln 0.6, ''V'' \<mapsto> ln 0.4]"

definition dog_transition :: "string \<rightharpoonup> table" where
  "dog_transition =
     [''N'' \<mapsto> [''V'' \<mapsto> ln 0.7, ''N'' \<mapsto> ln 0.3],
      ''V'' \<mapsto> [''N'' \<mapsto> ln 0.9, ''V'' \<mapsto> ln 0.1]]"

definition dog_emission :: "string \<rightharpoonup> table" where
  "dog_emission = [''N'' \<mapsto> [''dog'' \<mapsto> ln 0.5], ''V'' \<mapsto> [''run'' \<mapsto> ln 0.6]]"

text \<open>A model whose tables miss entries, and a model whose emission tables know the empty token.\<close>

definition sparse_emission :: "string \<rightharpoonup> table" where
  "sparse_emission = [''N'' \<mapsto> [''a'' \<mapsto> -1], ''V'' \<mapsto> [''b'' \<mapsto> -1]]"

definition sparse_transition :: "string \<rightharpoonup> table" where
  "sparse_transition = [''N'' \<mapsto> [''V'' \<mapsto> -1], ''V'' \<mapsto> [''N'' \<mapsto> -1]]"

definition blank_initial :: table where
  "blank_initial = [''N'' \<mapsto> -2, ''V'' \<mapsto> -1]"

definition blank_emission :: "string \<rightharpoonup> table" where
  "blank_emission = [''N'' \<mapsto> ['''' \<mapsto> 0], ''V'' \<mapsto> ['''' \<mapsto> -5]]"

section \<open>The spec's split on whitespace\<close>

text \<open>
  The words of the spec, "split on whitespace into an observation", read as Python's
  \<^verbatim>\<open>line.split()\<close>: the maximal runs of characters that are not whitespace. It is
  defined to be compared with \<open>split_space (strip line)\<close>, which is what the code does.
\<close>

fun whitespace_words :: "string \<Rightarrow> string \<Rightarrow> string list" where
  "whitespace_words w [] = (if w = [] then [] else [w])"
| "whitespace_words w (c # cs) =
     (if isspace c then (if w = [] then whitespace_words [] cs else w # whitespace_words [] cs)
      else whitespace_words (w @ [c]) cs)"

definition whitespace_split :: "string \<Rightarrow> string list" where
  "whitespace_split s = whitespace_words [] s"

section \<open>Containers and the maximum\<close>

lemma sum_bind_Inr [simp]: "sum_bind (Inr x) f = f x"
  by (simp add: sum_bind_def)

lemma sum_bind_Inl [simp]: "sum_bind (Inl e) f = Inl e"
  by (simp add: sum_bind_def)

lemma dict_set_fresh: "k \<notin> fst ` set d \<Longrightarrow> dict_set d k v = d @ [(k, v)]"
  by (induction d) auto

lemma dict_set_twice: "dict_set (dict_set d k w) k v = dict_set d k v"
  by (induction d) auto

lemma foldl_max: "foldl (\<lambda>m y. if y > m then y else m) (x::real) xs = Max (set (x # xs))"
proof (induction xs arbitrary: x)
  case Nil
  show ?case by simp
next
  case (Cons y ys)
  have "Max (set (x # y # ys)) = max (max x y) (Max (set ((max x y) # ys)))"
    by (cases "ys = []") (auto simp: max_def)
  then show ?case using Cons[of "if y > x then y else x"]
    by (cases "ys = []") (auto simp: max_def)
qed

lemma Max_props:
  fixes xs :: "real list"
  shows "xs \<noteq> [] \<Longrightarrow> Max (set xs) \<in> set xs \<and> (\<forall>x \<in> set xs. x \<le> Max (set xs))"
  by (simp add: Max_in)

lemma python_max_Max: "xs \<noteq> [] \<Longrightarrow> python_max xs = Inr (Max (set xs))"
  by (cases xs) (simp_all add: python_max_def foldl_max del: set_simps)

lemma comprehension_map:
  "(\<And>x. x \<in> set xs \<Longrightarrow> f x = Inr (g x)) \<Longrightarrow> comprehension f xs = Inr (map g xs)"
  by (induction xs) simp_all

section \<open>The loops of the matrix\<close>

lemma initial_prob_closed:
  "s \<in> dom init \<Longrightarrow> s \<in> dom em \<Longrightarrow> obs \<noteq> [] \<Longrightarrow>
   initial_prob A obs init em uw s = Inr (initial_score A init em uw (hd obs) s)"
  by (cases obs)
     (auto simp: initial_prob_def initial_score_def table_item_def list_item_def)

lemma initial_loop_closed:
  "set rest \<subseteq> dom init \<Longrightarrow> set rest \<subseteq> dom em \<Longrightarrow> obs \<noteq> [] \<Longrightarrow> distinct rest \<Longrightarrow>
   set rest \<inter> fst ` set r = {} \<Longrightarrow>
   initial_loop A obs init em uw rest (r # W) =
     Inr ((r @ initial_row A init em uw (hd obs) rest) # W)"
proof (induction rest arbitrary: r)
  case Nil
  show ?case by (simp add: initial_row_def)
next
  case (Cons s rest)
  let ?c = "\<lparr>probability = initial_score A init em uw (hd obs) s, backpointer = None\<rparr>"
  have p: "initial_prob A obs init em uw s = Inr (initial_score A init em uw (hd obs) s)"
    using Cons.prems by (intro initial_prob_closed) auto
  have fresh: "s \<notin> fst ` set r" using Cons.prems by auto
  have sc: "set_cell (r # W) 0 s ?c = Inr ((r @ [(s, ?c)]) # W)"
    by (simp add: set_cell_def dict_set_fresh[OF fresh])
  have "initial_loop A obs init em uw rest ((r @ [(s, ?c)]) # W) =
      Inr (((r @ [(s, ?c)]) @ initial_row A init em uw (hd obs) rest) # W)"
    using Cons.prems by (intro Cons.IH) auto
  then show ?case by (simp add: p sc initial_row_def)
qed

lemma transition_prob_closed:
  "W \<noteq> [] \<Longrightarrow> length W = t \<Longrightarrow> p \<in> fst ` set (last W) \<Longrightarrow> p \<in> dom tr \<Longrightarrow>
   transition_prob A (W @ X) t tr us s p = Inr (score A (last W) tr us s p)"
proof -
  assume a: "W \<noteq> []" "length W = t" "p \<in> fst ` set (last W)" "p \<in> dom tr"
  have "0 < t" using a by auto
  then have li: "list_item (W @ X) (t - 1) = Inr (last W)"
    using a by (simp add: list_item_def nth_append last_conv_nth)
  obtain c where c: "map_of (last W) p = Some c"
    using a(3) by (metis domD dom_map_of_conv_image_fst)
  obtain d where d: "tr p = Some d" using a(4) by auto
  show ?thesis
    using li by (simp add: transition_prob_def dict_item_def table_item_def c d score_def)
qed

lemma set_cell_last:
  "length W = t \<Longrightarrow> set_cell (W @ [cur]) t s c = Inr (W @ [dict_set cur s c])"
  by (auto simp: set_cell_def)

lemma backpointer_loop_closed:
  "W \<noteq> [] \<Longrightarrow> length W = t \<Longrightarrow> set prevs \<subseteq> fst ` set (last W) \<Longrightarrow> set prevs \<subseteq> dom tr \<Longrightarrow>
   backpointer_loop A t tr us s mt me prevs (W @ [cur]) =
     Inr (W @ [if filter (\<lambda>p. score A (last W) tr us s p = mt) prevs = [] then cur
               else dict_set cur s
                 \<lparr>probability = me,
                  backpointer = Some (last (filter (\<lambda>p. score A (last W) tr us s p = mt) prevs))\<rparr>])"
proof (induction prevs arbitrary: cur)
  case Nil
  show ?case by simp
next
  case (Cons p rest)
  have tp: "transition_prob A (W @ [cur]) t tr us s p = Inr (score A (last W) tr us s p)" for cur
    using Cons.prems by (intro transition_prob_closed) auto
  have ih: "backpointer_loop A t tr us s mt me rest (W @ [cur']) =
     Inr (W @ [if filter (\<lambda>p. score A (last W) tr us s p = mt) rest = [] then cur'
               else dict_set cur' s
                 \<lparr>probability = me,
                  backpointer = Some (last (filter (\<lambda>p. score A (last W) tr us s p = mt) rest))\<rparr>])"
    for cur'
    using Cons.prems by (intro Cons.IH) auto
  show ?case
    using Cons.prems(2)
    by (simp add: tp ih set_cell_last dict_set_twice)
qed

lemma best_score_attained:
  "states \<noteq> [] \<Longrightarrow> filter (\<lambda>p. score A prev tr us s p = best_score A prev states tr us s) states \<noteq> []"
proof -
  assume "states \<noteq> []"
  then have "Max (set (map (score A prev tr us s) states)) \<in> set (map (score A prev tr us s) states)"
    by (intro Max_in) auto
  then obtain p where "p \<in> set states" "score A prev tr us s p = best_score A prev states tr us s"
    by (auto simp: best_score_def)
  then show ?thesis by (auto simp: filter_empty_conv)
qed

lemma state_loop_closed:
  "W \<noteq> [] \<Longrightarrow> length W = t \<Longrightarrow> t < length obs \<Longrightarrow> fst ` set (last W) = set states \<Longrightarrow>
   states \<noteq> [] \<Longrightarrow> set states \<subseteq> dom tr \<Longrightarrow> set rest \<subseteq> dom em \<Longrightarrow> distinct rest \<Longrightarrow>
   set rest \<inter> fst ` set cur = {} \<Longrightarrow>
   state_loop A obs states em tr uw us t rest (W @ [cur]) =
     Inr (W @ [cur @ map (\<lambda>s. (s, next_cell A (last W) states em tr uw us (obs ! t) s)) rest])"
proof (induction rest arbitrary: cur)
  case Nil
  show ?case by simp
next
  case (Cons s rest)
  have probs: "comprehension (transition_prob A (W @ [cur]) t tr us s) states =
      Inr (map (score A (last W) tr us s) states)"
    using Cons.prems by (intro comprehension_map transition_prob_closed) auto
  have mx: "python_max (map (score A (last W) tr us s) states) = Inr (best_score A (last W) states tr us s)"
    using Cons.prems by (simp add: python_max_Max best_score_def)
  obtain e where e: "em s = Some e" using Cons.prems by auto
  have tok: "list_item obs t = Inr (obs ! t)" using Cons.prems by (simp add: list_item_def)
  have fresh: "s \<notin> fst ` set cur" using Cons.prems by auto
  have bl: "backpointer_loop A t tr us s (best_score A (last W) states tr us s)
       (fadd A (best_score A (last W) states tr us s) (table_get e (obs ! t) uw)) states
       (W @ [cur]) =
     Inr (W @ [cur @ [(s, next_cell A (last W) states em tr uw us (obs ! t) s)]])"
    using Cons.prems best_score_attained[of states A "last W" tr us s]
    by (subst backpointer_loop_closed) (auto simp: dict_set_fresh[OF fresh] next_cell_def e)
  have ih: "state_loop A obs states em tr uw us t rest
       (W @ [cur @ [(s, next_cell A (last W) states em tr uw us (obs ! t) s)]]) =
     Inr (W @ [(cur @ [(s, next_cell A (last W) states em tr uw us (obs ! t) s)]) @
        map (\<lambda>s. (s, next_cell A (last W) states em tr uw us (obs ! t) s)) rest])"
    using Cons.prems by (intro Cons.IH) auto
  show ?case
    by (simp add: probs mx e tok bl ih table_item_def)
qed

lemma keys_next_row: "map fst (next_row A prev states em tr uw us token) = states"
  by (simp add: next_row_def comp_def)

lemma keys_initial_row: "map fst (initial_row A init em uw token states) = states"
  by (simp add: initial_row_def comp_def)

lemma time_loop_closed:
  "W \<noteq> [] \<Longrightarrow> length W \<le> length obs \<Longrightarrow> map fst (last W) = states \<Longrightarrow>
   states \<noteq> [] \<Longrightarrow> distinct states \<Longrightarrow> set states \<subseteq> dom tr \<Longrightarrow> set states \<subseteq> dom em \<Longrightarrow>
   time_loop A obs states em tr uw us [length W..<length obs] W =
     Inr (W @ rows_from A (last W) states em tr uw us (drop (length W) obs))"
proof (induction "length obs - length W" arbitrary: W)
  case 0
  then show ?case by simp
next
  case (Suc k)
  let ?t = "length W"
  let ?r = "next_row A (last W) states em tr uw us (obs ! ?t)"
  have lt: "?t < length obs" using Suc.hyps(2) by simp
  have keys: "fst ` set (last W) = set states"
    using Suc.prems(3) by (metis list.set_map)
  have sl: "state_loop A obs states em tr uw us ?t states (W @ [[]]) = Inr (W @ [?r])"
    using Suc.prems lt keys
    by (subst state_loop_closed) (auto simp: next_row_def)
  have ih: "time_loop A obs states em tr uw us [length (W @ [?r])..<length obs] (W @ [?r]) =
     Inr ((W @ [?r]) @ rows_from A (last (W @ [?r])) states em tr uw us (drop (length (W @ [?r])) obs))"
    using Suc.prems Suc.hyps(2) lt by (intro Suc.hyps(1)) (auto simp: keys_next_row)
  have dr: "drop ?t obs = obs ! ?t # drop (Suc ?t) obs"
    using lt by (simp add: Cons_nth_drop_Suc)
  show ?case using ih lt
    by (simp add: upt_conv_Cons sl dr)
qed

lemma unknown_prob_pos:
  "n \<noteq> 0 \<Longrightarrow> 0 < smoothing_argument A (real_of_int n) \<Longrightarrow>
   unknown_prob A n = Inr (flog A (smoothing_argument A (real_of_int n)))"
  by (simp add: unknown_prob_def math_log_def smoothing_argument_def)

lemma wellformed_unknown_prob:
  assumes "wellformed_model A n states init em tr"
  shows "unknown_prob A n = Inr (flog A (smoothing_argument A (real_of_int n)))"
    and "unknown_prob A (int (length states)) =
      Inr (flog A (smoothing_argument A (real (length states))))"
  using assms unknown_prob_pos[of n A] unknown_prob_pos[of "int (length states)" A]
  by (simp_all add: wellformed_model_def)

lemma viterbi_matrix_closed:
  assumes "wellformed_model A n states init em tr" "obs \<noteq> []"
  shows "viterbi_matrix A obs n states init em tr = Inr (closed_trellis A obs n states init em tr)"
proof -
  define uw where "uw = flog A (smoothing_argument A (real_of_int n))"
  define us where "us = flog A (smoothing_argument A (real (length states)))"
  define r where "r = initial_row A init em uw (hd obs) states"
  have wf: "n \<noteq> 0" "states \<noteq> []" "distinct states" "set states \<subseteq> dom init"
    "set states \<subseteq> dom em" "set states \<subseteq> dom tr"
    using assms(1) by (auto simp: wellformed_model_def)
  have u1: "unknown_prob A n = Inr uw" unfolding uw_def using assms(1) by (rule wellformed_unknown_prob(1))
  have u2: "unknown_prob A (int (length states)) = Inr us"
    unfolding us_def using assms(1) by (rule wellformed_unknown_prob(2))
  have il: "initial_loop A obs init em uw states [[]] = Inr [r]"
    using wf assms(2) initial_loop_closed[of states init em obs "[]" A uw "[]"]
    by (simp add: r_def)
  have "time_loop A obs states em tr uw us [length [r]..<length obs] [r] =
     Inr ([r] @ rows_from A (last [r]) states em tr uw us (drop (length [r]) obs))"
    using wf assms(2) by (intro time_loop_closed) (auto simp: keys_initial_row Suc_le_eq r_def)
  then have tl: "time_loop A obs states em tr uw us [1..<length obs] [r] =
     Inr (r # rows_from A r states em tr uw us (tl obs))"
    by (simp add: drop_Suc)
  have ct: "closed_trellis A obs n states init em tr = r # rows_from A r states em tr uw us (tl obs)"
    by (simp only: closed_trellis_def Let_def uw_def us_def r_def)
  show ?thesis
    by (simp only: viterbi_matrix_def u1 u2 il tl ct sum_bind_Inr)
qed

section \<open>Backtracking and the output line\<close>

lemma next_row_ok:
  "states \<noteq> [] \<Longrightarrow> step_row_ok states (next_row A prev states em tr uw us token)"
proof -
  assume ne: "states \<noteq> []"
  have "last (filter (\<lambda>p. score A prev tr us s p = best_score A prev states tr us s) states)
      \<in> set states" for s
    using best_score_attained[OF ne, of A prev tr us s] last_in_set
    by (metis (no_types, lifting) filter_is_subset subsetD)
  then show ?thesis
    by (simp add: step_row_ok_def list_all_iff next_row_def next_cell_def comp_def)
qed

lemma rows_from_ok:
  "states \<noteq> [] \<Longrightarrow> list_all (step_row_ok states) (rows_from A prev states em tr uw us toks)"
  by (induction toks arbitrary: prev) (simp_all add: next_row_ok)

lemma length_rows_from: "length (rows_from A prev states em tr uw us toks) = length toks"
  by (induction toks arbitrary: prev) simp_all

lemma closed_trellis_ok:
  "states \<noteq> [] \<Longrightarrow> distinct states \<Longrightarrow> trellis_ok states (closed_trellis A obs n states init em tr)"
  by (simp add: trellis_ok_def closed_trellis_def Let_def keys_initial_row rows_from_ok)

lemma length_closed_trellis:
  "obs \<noteq> [] \<Longrightarrow> length (closed_trellis A obs n states init em tr) = length obs"
  by (simp add: closed_trellis_def Let_def length_rows_from)

lemma trellis_ok_keys:
  "trellis_ok states V \<Longrightarrow> i < length V \<Longrightarrow> map fst (V ! i) = states"
  by (cases V; cases i) (auto simp: trellis_ok_def list_all_length step_row_ok_def)

lemma trellis_ok_step:
  "trellis_ok states V \<Longrightarrow> 0 < i \<Longrightarrow> i < length V \<Longrightarrow> step_row_ok states (V ! i)"
  by (cases V; cases i) (auto simp: trellis_ok_def list_all_length)

lemma final_loop_find:
  "final_loop r m tags pre =
     (case find (\<lambda>item. probability (snd item) = m) r of
        None \<Rightarrow> (tags, pre)
      | Some item \<Rightarrow> (tags @ [Some (fst item)], Some (fst item)))"
  by (induction r m tags pre rule: final_loop.induct) simp_all

lemma find_max_row:
  assumes "r \<noteq> []"
  shows "\<exists>item. find (\<lambda>item. probability (snd item) = Max (set (map (\<lambda>item. probability (snd item)) r))) r
           = Some item \<and> item \<in> set r \<and>
           probability (snd item) = Max (set (map (\<lambda>item. probability (snd item)) r))"
proof -
  let ?m = "Max (set (map (\<lambda>item. probability (snd item)) r))"
  have "?m \<in> set (map (\<lambda>item. probability (snd item)) r)"
    using assms by (intro Max_in) auto
  then obtain x where "x \<in> set r" "probability (snd x) = ?m" by auto
  then have "find (\<lambda>item. probability (snd item) = ?m) r \<noteq> None"
    unfolding find_None_iff by blast
  then obtain item where f: "find (\<lambda>item. probability (snd item) = ?m) r = Some item" by auto
  then show ?thesis
    by (metis (mono_tags, lifting) find_Some_iff nth_mem)
qed

lemma walk_loop_ok:
  "trellis_ok states V \<Longrightarrow> k < length V \<Longrightarrow> s \<in> set states \<Longrightarrow>
   \<exists>path. walk_loop V (rev [0..<k]) tags (Some s) = Inr (tags @ map Some path) \<and>
          length path = k \<and> set path \<subseteq> set states"
proof (induction k arbitrary: tags s)
  case 0
  show ?case by simp
next
  case (Suc k)
  have row: "step_row_ok states (V ! Suc k)"
    using Suc.prems by (intro trellis_ok_step) auto
  then have "s \<in> fst ` set (V ! Suc k)"
    using Suc.prems(3) by (metis step_row_ok_def list.set_map)
  then obtain c where c: "map_of (V ! Suc k) s = Some c"
    by (metis domD dom_map_of_conv_image_fst)
  then have "(s, c) \<in> set (V ! Suc k)" by (rule map_of_SomeD)
  then obtain p where p: "backpointer c = Some p" "p \<in> set states"
    using row by (auto simp: step_row_ok_def list_all_iff)
  obtain path where path:
    "walk_loop V (rev [0..<k]) (tags @ [Some p]) (Some p) = Inr ((tags @ [Some p]) @ map Some path)"
    "length path = k" "set path \<subseteq> set states"
    using Suc.IH[of p "tags @ [Some p]"] Suc.prems p by auto
  have "walk_loop V (rev [0..<Suc k]) tags (Some s) = Inr (tags @ map Some (p # path))"
    using Suc.prems(2) path(1) by (simp add: list_item_def dict_item_def c p)
  then show ?case using path p
    by (intro exI[of _ "p # path"]) simp
qed

lemma backtrack_ok:
  assumes "trellis_ok states V"
  shows "\<exists>ts item. backtrack_viterbi_matrix V = Inr (map Some ts) \<and> length ts = length V \<and>
           set ts \<subseteq> set states \<and>
           find (\<lambda>item. probability (snd item) = Max (set (map (\<lambda>item. probability (snd item)) (last V))))
             (last V) = Some item \<and> last ts = fst item"
proof -
  let ?r = "last V"
  let ?m = "Max (set (map (\<lambda>item. probability (snd item)) ?r))"
  have ne: "V \<noteq> []" "states \<noteq> []" using assms by (auto simp: trellis_ok_def)
  have keys: "map fst ?r = states"
    using trellis_ok_keys[OF assms, of "length V - 1"] ne by (simp add: last_conv_nth)
  then have rne: "?r \<noteq> []" using ne by auto
  obtain item where item: "find (\<lambda>item. probability (snd item) = ?m) ?r = Some item"
    "item \<in> set ?r"
    using find_max_row[OF rne] by blast
  have s: "fst item \<in> set states" using item(2) keys by (metis image_eqI list.set_map)
  obtain path where path:
    "walk_loop V (rev [0..<length V - 1]) [Some (fst item)] (Some (fst item)) =
       Inr ([Some (fst item)] @ map Some path)"
    "length path = length V - 1" "set path \<subseteq> set states"
    using walk_loop_ok[OF assms _ s, of "length V - 1" "[Some (fst item)]"] ne by auto
  have pm: "python_max (map (\<lambda>item. probability (snd item)) ?r) = Inr ?m"
    using rne by (intro python_max_Max) simp
  have fl: "final_loop ?r ?m [] (Some ''RDM'') = ([Some (fst item)], Some (fst item))"
    by (simp only: final_loop_find item option.case append_Nil)
  have "backtrack_viterbi_matrix V = Inr (rev ([Some (fst item)] @ map Some path))"
    by (simp only: backtrack_viterbi_matrix_def ne if_False sum_bind_Inr pm fl prod.case path(1))
  then have "backtrack_viterbi_matrix V = Inr (map Some (rev path @ [fst item]))"
    by (simp add: rev_map)
  then show ?thesis using path(2,3) s item(1) ne
    by (intro exI[of _ "rev path @ [fst item]"] exI[of _ item]) auto
qed

lemma output_loop_closed:
  "length ts = length obs \<Longrightarrow> i \<le> length obs \<Longrightarrow>
   output_loop obs (map Some ts) [i..<length obs] out =
     Inr (out @ concat (map (\<lambda>p. pair_text p @ '' '') (drop i (zip obs ts))))"
proof (induction "length obs - i" arbitrary: i out)
  case 0
  then show ?case by simp
next
  case (Suc k)
  have lt: "i < length obs" using Suc.hyps(2) by simp
  have dr: "drop i (zip obs ts) = (obs ! i, ts ! i) # drop (Suc i) (zip obs ts)"
    using lt Suc.prems(1) by (simp add: Cons_nth_drop_Suc[symmetric])
  have ih: "output_loop obs (map Some ts) [Suc i..<length obs] (out @ obs ! i @ ''/'' @ ts ! i @ '' '') =
     Inr ((out @ obs ! i @ ''/'' @ ts ! i @ '' '') @
          concat (map (\<lambda>p. pair_text p @ '' '') (drop (Suc i) (zip obs ts))))"
    using Suc.prems Suc.hyps(2) lt by (intro Suc.hyps(1)) auto
  show ?case using lt Suc.prems(1) ih
    by (simp add: upt_conv_Cons list_item_def dr pair_text_def)
qed

lemma butlast_concat_spaces:
  "butlast (concat (map (\<lambda>x. f x @ '' '') xs)) = join_spaces (map f xs)"
proof (induction xs rule: induct_list012)
  case 1
  show ?case by simp
next
  case (2 x)
  show ?case by (simp add: butlast_append)
next
  case (3 x y zs)
  then show ?case by (simp add: butlast_append)
qed

lemma viterbi_closed:
  assumes "wellformed_model A n states init em tr" "obs \<noteq> []"
  shows "\<exists>V ts item. viterbi_matrix A obs n states init em tr = Inr V \<and>
           V = closed_trellis A obs n states init em tr \<and>
           backtrack_viterbi_matrix V = Inr (map Some ts) \<and> length ts = length obs \<and>
           set ts \<subseteq> set states \<and>
           find (\<lambda>item. probability (snd item) = Max (set (map (\<lambda>item. probability (snd item)) (last V))))
             (last V) = Some item \<and> last ts = fst item \<and>
           viterbi A obs n states init em tr = Inr (join_spaces (map pair_text (zip obs ts)))"
proof -
  let ?V = "closed_trellis A obs n states init em tr"
  have wf: "states \<noteq> []" "distinct states" using assms(1) by (auto simp: wellformed_model_def)
  have vm: "viterbi_matrix A obs n states init em tr = Inr ?V"
    using assms by (rule viterbi_matrix_closed)
  have ok: "trellis_ok states ?V" using wf by (rule closed_trellis_ok)
  obtain ts item where bt: "backtrack_viterbi_matrix ?V = Inr (map Some ts)" "length ts = length ?V"
    "set ts \<subseteq> set states"
    "find (\<lambda>item. probability (snd item) = Max (set (map (\<lambda>item. probability (snd item)) (last ?V))))
             (last ?V) = Some item" "last ts = fst item"
    using backtrack_ok[OF ok] by blast
  have len: "length ts = length obs" using bt(2) assms(2) by (simp add: length_closed_trellis)
  have "viterbi A obs n states init em tr = Inr (join_spaces (map pair_text (zip obs ts)))"
    using output_loop_closed[OF len, of 0 "[]"]
    by (simp add: viterbi_def vm bt(1) butlast_concat_spaces)
  then show ?thesis using vm bt len by blast
qed

section \<open>Rows and scores of the returned matrix\<close>

lemma rows_from_nth:
  "i < length toks \<Longrightarrow>
   (prev # rows_from A prev states em tr uw us toks) ! Suc i =
     next_row A ((prev # rows_from A prev states em tr uw us toks) ! i) states em tr uw us (toks ! i)"
proof (induction toks arbitrary: prev i)
  case Nil
  then show ?case by simp
next
  case (Cons token rest)
  show ?case
  proof (cases i)
    case 0
    then show ?thesis by simp
  next
    case (Suc j)
    then have "j < length rest" using Cons.prems by simp
    from Cons.IH[OF this, of "next_row A prev states em tr uw us token"] Suc
    show ?thesis by simp
  qed
qed

lemma closed_trellis_nth:
  assumes "0 < t" "t < length obs"
  shows "closed_trellis A obs n states init em tr ! t =
     next_row A (closed_trellis A obs n states init em tr ! (t - 1)) states em tr
       (flog A (smoothing_argument A (real_of_int n))) (flog A (smoothing_argument A (real (length states)))) (obs ! t)"
proof -
  obtain j where j: "t = Suc j" using assms(1) by (cases t) auto
  have "j < length (tl obs)" using assms(2) j by simp
  moreover have "tl obs ! j = obs ! t" using assms(2) j by (cases obs) auto
  ultimately show ?thesis
    using rows_from_nth[of j "tl obs"] j
    by (simp add: closed_trellis_def Let_def)
qed

lemma closed_trellis_0:
  "closed_trellis A obs n states init em tr ! 0 =
     initial_row A init em (flog A (smoothing_argument A (real_of_int n))) (hd obs) states"
  by (simp add: closed_trellis_def Let_def)

lemma map_of_keyed: "s \<in> set states \<Longrightarrow> map_of (map (\<lambda>k. (k, f k)) states) s = Some (f s)"
  by (induction states) auto

lemma dict_item_next_row:
  "s \<in> set states \<Longrightarrow>
   dict_item (next_row A prev states em tr uw us token) s =
     Inr (next_cell A prev states em tr uw us token s)"
  by (simp add: dict_item_def next_row_def map_of_keyed)

lemma dict_item_initial_row:
  "s \<in> set states \<Longrightarrow>
   dict_item (initial_row A init em uw token states) s =
     Inr \<lparr>probability = initial_score A init em uw token s, backpointer = None\<rparr>"
  by (simp add: dict_item_def initial_row_def map_of_keyed)

lemma transition_prob_trellis:
  assumes "trellis_ok states V" "0 < t" "t < length V" "p \<in> set states" "p \<in> dom tr"
  shows "transition_prob A V t tr us s p = Inr (score A (V ! (t - 1)) tr us s p)"
proof -
  have "take t V \<noteq> []" using assms(2,3) by auto
  then have l: "last (take t V) = V ! (t - 1)"
    using assms(2,3) by (simp add: last_conv_nth min_def)
  have "map fst (V ! (t - 1)) = states"
    using assms by (intro trellis_ok_keys) auto
  then have k: "p \<in> fst ` set (last (take t V))"
    using assms(4) l by (metis list.set_map)
  have "transition_prob A (take t V @ drop t V) t tr us s p =
      Inr (score A (last (take t V)) tr us s p)"
    using assms(2,3,5) k by (intro transition_prob_closed) auto
  then show ?thesis by (simp add: l)
qed

lemma probs_trellis:
  assumes "trellis_ok states V" "0 < t" "t < length V" "set states \<subseteq> dom tr"
  shows "comprehension (transition_prob A V t tr us s) states =
      Inr (map (score A (V ! (t - 1)) tr us s) states)"
  using assms by (intro comprehension_map transition_prob_trellis) auto

lemma filter_transition_prob:
  assumes "trellis_ok states V" "0 < t" "t < length V" "set states \<subseteq> dom tr"
  shows "filter (\<lambda>p. transition_prob A V t tr us s p = Inr m) states =
      filter (\<lambda>p. score A (V ! (t - 1)) tr us s p = m) states"
proof (rule filter_cong[OF refl])
  fix p assume "p \<in> set states"
  then have "transition_prob A V t tr us s p = Inr (score A (V ! (t - 1)) tr us s p)"
    using assms by (intro transition_prob_trellis) auto
  then show "(transition_prob A V t tr us s p = Inr m) = (score A (V ! (t - 1)) tr us s p = m)"
    by simp
qed

lemma transition_prob_explicit:
  assumes "trellis_ok states V" "0 < t" "t < length V" "p \<in> set states" "p \<in> dom tr"
  shows "\<exists>c' d. dict_item (V ! (t - 1)) p = Inr c' \<and> tr p = Some d \<and>
      transition_prob A V t tr us s p = Inr (fadd A (probability c') (table_get d s us))"
proof -
  have "map fst (V ! (t - 1)) = states"
    using assms by (intro trellis_ok_keys) auto
  then have "p \<in> fst ` set (V ! (t - 1))"
    using assms(4) by (metis list.set_map)
  then obtain c' where c: "map_of (V ! (t - 1)) p = Some c'"
    by (metis domD dom_map_of_conv_image_fst)
  obtain d where d: "tr p = Some d" using assms(5) by auto
  have "transition_prob A V t tr us s p = Inr (score A (V ! (t - 1)) tr us s p)"
    using assms by (rule transition_prob_trellis)
  then show ?thesis using c d by (simp add: score_def dict_item_def)
qed

section \<open>Evaluation on concrete models\<close>

lemma exact_simps:
  "fadd exact x y = x + y" "fmul exact x y = x * y" "fdiv exact x y = x / y"
  "flog exact x = ln x"
  by (simp_all add: exact_def)

lemma grid_simps:
  "fmul grid x y = x * y" "fdiv grid x y = x / y" "flog grid x = ln x"
  by (simp_all add: grid_def)

lemma grid_sums:
  "fadd grid (-1) (- (1 / 2 ^ 53)) = -1" "fadd grid (-1) 0 = -1"
  by (simp_all add: grid_def round_def)

lemmas grid_defs =
  viterbi_def viterbi_matrix_def unknown_prob_def math_log_def K_def initial_prob_def
  table_item_def table_get_def list_item_def set_cell_def transition_prob_def dict_item_def
  python_max_def backtrack_viterbi_matrix_def upt_conv_Cons grid_simps smoothing_argument_def

lemmas eval_defs =
  viterbi_def viterbi_matrix_def unknown_prob_def math_log_def K_def initial_prob_def
  table_item_def table_get_def list_item_def set_cell_def transition_prob_def dict_item_def
  python_max_def backtrack_viterbi_matrix_def upt_conv_Cons exact_simps smoothing_argument_def

lemma ex_wellformed: "wellformed_model exact 10 ex_states ex_initial ex_emission ex_transition"
  by (simp add: wellformed_model_def smoothing_argument_def exact_simps K_def ex_states_def
      ex_initial_def ex_emission_def ex_transition_def)

lemma ex_observation_nonempty: "ex_observation \<noteq> []"
  by (simp add: ex_observation_def)

lemma ex_viterbi_matrix:
  "viterbi_matrix exact ex_observation 10 ex_states ex_initial ex_emission ex_transition = Inr ex_trellis"
  by (simp add: eval_defs ex_observation_def ex_states_def ex_initial_def ex_emission_def
      ex_transition_def ex_trellis_def)

lemma wellformed_exact:
  "wellformed_model exact n states init em tr =
     (0 < n \<and> states \<noteq> [] \<and> distinct states \<and>
      set states \<subseteq> dom init \<and> set states \<subseteq> dom em \<and> set states \<subseteq> dom tr)"
  by (auto simp: wellformed_model_def smoothing_argument_def exact_simps K_def
      zero_less_divide_iff)

lemma swap_viterbi_matrix:
  "viterbi_matrix exact [''b'', ''a''] 10 ex_states ex_initial ex_emission ex_transition =
     Inr swap_trellis"
  by (simp add: eval_defs ex_states_def ex_initial_def ex_emission_def ex_transition_def
      swap_trellis_def)

lemma near_wellformed:
  "wellformed_model grid 10 ex_states near_initial near_emission ex_transition"
  by (simp add: wellformed_model_def smoothing_argument_def grid_simps K_def ex_states_def
      near_initial_def near_emission_def ex_transition_def)

lemma flat_wellformed:
  "wellformed_model grid 10 ex_states near_initial flat_emission near_transition"
  by (simp add: wellformed_model_def smoothing_argument_def grid_simps K_def ex_states_def
      near_initial_def flat_emission_def near_transition_def)

lemma near_viterbi_matrix:
  "viterbi_matrix grid [''a'', ''a''] 10 ex_states near_initial flat_emission near_transition =
     Inr near_trellis"
  using grid_sums
  by (simp add: grid_defs ex_states_def near_initial_def flat_emission_def
      near_transition_def near_trellis_def)

lemma near_initial_matrix:
  "viterbi_matrix grid [''a''] 10 ex_states near_initial near_emission ex_transition =
     Inr [[(''N'', \<lparr>probability = -1, backpointer = None\<rparr>),
           (''V'', \<lparr>probability = -1, backpointer = None\<rparr>)]]"
  using grid_sums
  by (simp add: grid_defs ex_states_def near_initial_def near_emission_def ex_transition_def)

lemmas run_defs =
  viterbi_def viterbi_matrix_def initial_prob_def
  table_item_def table_get_def list_item_def set_cell_def transition_prob_def dict_item_def
  python_max_def backtrack_viterbi_matrix_def upt_conv_Cons exact_simps

lemma ln_sum2_less:
  fixes x y u v :: real
  assumes "0 < x" "0 < y" "0 < u" "0 < v" "x * y < u * v"
  shows "ln x + ln y < ln u + ln v"
proof -
  have "ln (x * y) < ln (u * v)" using assms by (subst ln_less_cancel_iff) simp_all
  then show ?thesis using assms by (simp add: ln_mult)
qed

lemma ln_sum3_less:
  fixes x y z u v w :: real
  assumes "0 < x" "0 < y" "0 < z" "0 < u" "0 < v" "0 < w" "x * y * z < u * v * w"
  shows "ln x + ln y + ln z < ln u + ln v + ln w"
proof -
  have "ln (x * y * z) < ln (u * v * w)" using assms by (subst ln_less_cancel_iff) simp_all
  then show ?thesis using assms by (simp add: ln_mult)
qed

section \<open>Shape of the matrix and order of the keys\<close>

lemma length_concat_rows:
  "list_all (\<lambda>r. length r = k) V \<Longrightarrow> length (concat V) = length V * k"
  by (induction V) simp_all

lemma trellis_ok_all_keys:
  "trellis_ok states V \<Longrightarrow> list_all (\<lambda>r. map fst r = states) V"
  by (cases V) (auto simp: trellis_ok_def list_all_iff step_row_ok_def)

lemma trellis_ok_backpointer:
  assumes "trellis_ok states V" "0 < t" "t < length V" "s \<in> set states"
  shows "\<exists>c p. dict_item (V ! t) s = Inr c \<and> backpointer c = Some p \<and> p \<in> set states"
proof -
  have row: "step_row_ok states (V ! t)"
    using assms by (intro trellis_ok_step) auto
  then have "s \<in> fst ` set (V ! t)"
    using assms(4) by (metis step_row_ok_def list.set_map)
  then obtain c where c: "map_of (V ! t) s = Some c"
    by (metis domD dom_map_of_conv_image_fst)
  then have "(s, c) \<in> set (V ! t)" by (rule map_of_SomeD)
  then obtain p where "backpointer c = Some p" "p \<in> set states"
    using row by (auto simp: step_row_ok_def list_all_iff)
  then show ?thesis using c by (auto simp: dict_item_def)
qed

lemma find_keys:
  "distinct (map fst r) \<Longrightarrow> find (\<lambda>item. P (snd item)) r = Some item \<Longrightarrow>
   find (\<lambda>k. \<exists>c. map_of r k = Some c \<and> P c) (map fst r) = Some (fst item)"
proof (induction r)
  case Nil
  then show ?case by simp
next
  case (Cons x r)
  show ?case
  proof (cases "P (snd x)")
    case True
    then show ?thesis using Cons.prems by simp
  next
    case False
    then have f: "find (\<lambda>item. P (snd item)) r = Some item" using Cons.prems by simp
    have ih: "find (\<lambda>k. \<exists>c. map_of r k = Some c \<and> P c) (map fst r) = Some (fst item)"
      using Cons.IH f Cons.prems(1) by simp
    have other: "map_of (x # r) k = map_of r k" if "k \<in> set (map fst r)" for k
    proof -
      have "fst x \<notin> set (map fst r)" using Cons.prems(1) by simp
      then have "k \<noteq> fst x" using that by blast
      then show ?thesis by (cases x) simp
    qed
    have "find (\<lambda>k. \<exists>c. map_of (x # r) k = Some c \<and> P c) (map fst r) =
        find (\<lambda>k. \<exists>c. map_of r k = Some c \<and> P c) (map fst r)"
      by (rule find_cong[OF refl]) (simp only: other)
    then show ?thesis using False ih by simp
  qed
qed

lemma initial_prob_explicit:
  "init s = Some i \<Longrightarrow> em s = Some e \<Longrightarrow> obs \<noteq> [] \<Longrightarrow>
   initial_prob A obs init em uw s = Inr (fadd A i (table_get e (hd obs) uw))"
  by (cases obs) (simp_all add: initial_prob_def table_item_def list_item_def)

lemma closed_trellis_single:
  "closed_trellis A [token] n states init em tr =
     [initial_row A init em (flog A (smoothing_argument A (real_of_int n))) token states]"
  by (simp add: closed_trellis_def Let_def)

lemma probabilities_initial_row:
  "map (\<lambda>item. probability (snd item)) (initial_row A init em uw token states) =
     map (initial_score A init em uw token) states"
  by (simp add: initial_row_def comp_def)

section \<open>Lines, tokens and the loop over the lines\<close>

lemma split_space_nonempty: "split_space s \<noteq> []"
  by (induction s) (auto split: list.splits)

lemma join_spaces_Cons: "join_spaces ((c # w) # ws) = c # join_spaces (w # ws)"
  by (cases ws) simp_all

lemma join_split_space: "join_spaces (split_space s) = s"
proof (induction s)
  case Nil
  show ?case by simp
next
  case (Cons c cs)
  obtain w ws where ws: "split_space cs = w # ws"
    using split_space_nonempty[of cs] by (cases "split_space cs") auto
  show ?case using Cons ws by (simp add: join_spaces_Cons)
qed

lemma split_space_no_space: "w \<in> set (split_space s) \<Longrightarrow> CHR '' '' \<notin> set w"
proof (induction s arbitrary: w)
  case Nil
  then show ?case by simp
next
  case (Cons c cs)
  obtain v vs where vs: "split_space cs = v # vs"
    using split_space_nonempty[of cs] by (cases "split_space cs") auto
  have v: "CHR '' '' \<notin> set v" and rest: "\<And>u. u \<in> set vs \<Longrightarrow> CHR '' '' \<notin> set u"
    using Cons.IH vs by auto
  show ?case using Cons.prems vs v rest by (auto split: if_splits)
qed

lemma strip_blank: "list_all isspace line \<Longrightarrow> strip line = []"
proof -
  assume "list_all isspace line"
  then have d: "dropWhile isspace line = []"
    by (induction line) simp_all
  show ?thesis unfolding strip_def d by simp
qed

lemma line_loop_closed:
  "(\<And>line. line \<in> set lines \<Longrightarrow>
      viterbi A (split_space (strip line)) n states init em tr = Inr (g line)) \<Longrightarrow>
   line_loop A n states init em tr lines result = Inr (result @ map g lines)"
  by (induction lines arbitrary: result) simp_all

lemmas lines_defs = tag_sentence_def strip_def isspace_def

section \<open>Claims\<close>

subsection \<open>C1: the backpointer of a cell\<close>

text \<open>
  C1 as stated says that the backpointer of cell \<open>(t, s)\<close> is the first state, in the
  order of \<open>states\<close>, whose score equals the maximum. In the model where every score
  ties, the scores of the predecessors \<open>N\<close> and \<open>V\<close> of cell \<open>(1, N)\<close> are both
  \<open>-3\<close>, the first state with the maximal score is \<open>N\<close>, and the cell records \<open>V\<close>:
  the loop of lines 42 to 47 has no \<^verbatim>\<open>break\<close>, so the last match overwrites the
  earlier ones. The scores are sums of small integers, exact on the machine.
\<close>

theorem first_best_predecessor_counterexample:
  "viterbi_matrix exact [''a'', ''b''] 10 [''N'', ''V''] tie_initial tie_emission tie_transition =
     Inr tie_trellis \<and>
   transition_prob exact tie_trellis 1 tie_transition (ln (1 / 2 * K)) ''N'' ''N'' = Inr (-3) \<and>
   transition_prob exact tie_trellis 1 tie_transition (ln (1 / 2 * K)) ''N'' ''V'' = Inr (-3) \<and>
   python_max [-3, -3] = Inr (-3) \<and>
   find (\<lambda>p. transition_prob exact tie_trellis 1 tie_transition (ln (1 / 2 * K)) ''N'' p = Inr (-3))
     [''N'', ''V''] = Some ''N'' \<and>
   dict_item (tie_trellis ! 1) ''N'' = Inr \<lparr>probability = -4, backpointer = Some ''V''\<rparr>"
  by (simp add: eval_defs tie_initial_def tie_emission_def tie_transition_def tie_trellis_def)

text \<open>
  C1, amended: in every arithmetic, for a well-formed model, every step \<open>t \<ge> 1\<close> of
  the observation and every state \<open>s\<close>, the scores
  \<^verbatim>\<open>V[t-1][p][PROBABILITY] + transition_probability[p].get(s, unknown_state_prob)\<close>
  of all predecessors \<open>p\<close> are computed without an error; \<^verbatim>\<open>max\<close> returns a value
  \<open>m\<close> that is one of these scores and that no score exceeds; and the backpointer
  recorded at cell \<open>(t, s)\<close> is the last state, in the order of \<open>states\<close>, whose
  score equals \<open>m\<close>. The scores are the sums as the arithmetic computes them: two
  predecessors whose exact scores differ and whose rounded scores are equal tie, and the
  later one is recorded.
\<close>

theorem backpointer_is_last_best_predecessor:
  assumes "wellformed_model A n states init em tr" and "obs \<noteq> []"
    and "1 \<le> t" and "t < length obs" and "s \<in> set states"
  shows "\<exists>V us c probs m.
      viterbi_matrix A obs n states init em tr = Inr V \<and>
      unknown_prob A (int (length states)) = Inr us \<and>
      dict_item (V ! t) s = Inr c \<and>
      (\<forall>p \<in> set states. \<exists>c' d. dict_item (V ! (t - 1)) p = Inr c' \<and> tr p = Some d \<and>
         transition_prob A V t tr us s p = Inr (fadd A (probability c') (table_get d s us))) \<and>
      comprehension (transition_prob A V t tr us s) states = Inr probs \<and>
      python_max probs = Inr m \<and>
      m \<in> set probs \<and> (\<forall>x \<in> set probs. x \<le> m) \<and>
      filter (\<lambda>p. transition_prob A V t tr us s p = Inr m) states \<noteq> [] \<and>
      backpointer c =
        Some (last (filter (\<lambda>p. transition_prob A V t tr us s p = Inr m) states))"
proof -
  define V where "V = closed_trellis A obs n states init em tr"
  define uw where "uw = flog A (smoothing_argument A (real_of_int n))"
  define us where "us = flog A (smoothing_argument A (real (length states)))"
  define prev where "prev = V ! (t - 1)"
  have wf: "states \<noteq> []" "distinct states" "set states \<subseteq> dom tr"
    using assms(1) by (auto simp: wellformed_model_def)
  have vm: "viterbi_matrix A obs n states init em tr = Inr V"
    unfolding V_def using assms(1,2) by (rule viterbi_matrix_closed)
  have ok: "trellis_ok states V" unfolding V_def using wf(1,2) by (rule closed_trellis_ok)
  have len: "length V = length obs" unfolding V_def using assms(2) by (rule length_closed_trellis)
  have us: "unknown_prob A (int (length states)) = Inr us"
    unfolding us_def using assms(1) by (rule wellformed_unknown_prob(2))
  have row: "V ! t = next_row A prev states em tr uw us (obs ! t)"
    unfolding V_def prev_def uw_def us_def using assms(3,4) by (intro closed_trellis_nth) auto
  have c: "dict_item (V ! t) s = Inr (next_cell A prev states em tr uw us (obs ! t) s)"
    unfolding row using assms(5) by (rule dict_item_next_row)
  have probs: "comprehension (transition_prob A V t tr us s) states =
      Inr (map (score A prev tr us s) states)"
    unfolding prev_def using ok assms(3,4) len wf(3) by (intro probs_trellis) auto
  have mx: "python_max (map (score A prev tr us s) states) = Inr (best_score A prev states tr us s)"
    using wf(1) by (simp add: python_max_Max best_score_def)
  have fl: "filter (\<lambda>p. transition_prob A V t tr us s p = Inr (best_score A prev states tr us s)) states =
      filter (\<lambda>p. score A prev tr us s p = best_score A prev states tr us s) states"
    unfolding prev_def using ok assms(3,4) len wf(3) by (intro filter_transition_prob) auto
  have ne: "filter (\<lambda>p. transition_prob A V t tr us s p = Inr (best_score A prev states tr us s)) states \<noteq> []"
    unfolding fl using wf(1) by (rule best_score_attained)
  have bp: "backpointer (next_cell A prev states em tr uw us (obs ! t) s) =
      Some (last (filter (\<lambda>p. transition_prob A V t tr us s p = Inr (best_score A prev states tr us s)) states))"
    unfolding fl by (simp add: next_cell_def)
  have cand: "\<forall>p \<in> set states. \<exists>c' d. dict_item (V ! (t - 1)) p = Inr c' \<and> tr p = Some d \<and>
      transition_prob A V t tr us s p = Inr (fadd A (probability c') (table_get d s us))"
    using ok assms(3,4) len wf(3) by (intro ballI transition_prob_explicit) auto
  have top: "best_score A prev states tr us s \<in> set (map (score A prev tr us s) states) \<and>
      (\<forall>x \<in> set (map (score A prev tr us s) states). x \<le> best_score A prev states tr us s)"
    unfolding best_score_def using wf(1) by (intro Max_props) simp
  show ?thesis
    by (intro exI[of _ V] exI[of _ us]
          exI[of _ "next_cell A prev states em tr uw us (obs ! t) s"]
          exI[of _ "map (score A prev tr us s) states"]
          exI[of _ "best_score A prev states tr us s"] conjI)
       (fact vm us c cand probs mx conjunct1[OF top] conjunct2[OF top] ne bp)+
qed

theorem backpointer_is_last_best_predecessor_witness:
  "wellformed_model grid 10 ex_states near_initial flat_emission near_transition \<and>
   [''a'', ''a''] \<noteq> [] \<and> (1::nat) \<le> 1 \<and> 1 < length [''a'', ''a''] \<and> ''N'' \<in> set ex_states \<and>
   viterbi_matrix grid [''a'', ''a''] 10 ex_states near_initial flat_emission near_transition =
     Inr near_trellis \<and>
   comprehension (transition_prob grid near_trellis 1 near_transition (ln (1 / 2 * K)) ''N'')
     ex_states = Inr [-1, -1] \<and>
   python_max [-1, -1] = Inr (-1) \<and>
   dict_item (near_trellis ! 1) ''N'' = Inr \<lparr>probability = -1, backpointer = Some ''V''\<rparr> \<and>
   viterbi_matrix exact [''b'', ''a''] 10 ex_states ex_initial ex_emission ex_transition =
     Inr swap_trellis \<and>
   comprehension (transition_prob exact swap_trellis 1 ex_transition (ln (1 / 2 * K)) ''N'')
     ex_states = Inr [-6, -4] \<and>
   python_max [-6, -4] = Inr (-4) \<and>
   dict_item (swap_trellis ! 1) ''N'' = Inr \<lparr>probability = -5, backpointer = Some ''V''\<rparr> \<and>
   (\<exists>V us c probs m.
      viterbi_matrix grid [''a'', ''a''] 10 ex_states near_initial flat_emission near_transition =
        Inr V \<and>
      unknown_prob grid (int (length ex_states)) = Inr us \<and>
      dict_item (V ! 1) ''N'' = Inr c \<and>
      (\<forall>p \<in> set ex_states. \<exists>c' d. dict_item (V ! (1 - 1)) p = Inr c' \<and>
         near_transition p = Some d \<and>
         transition_prob grid V 1 near_transition us ''N'' p =
           Inr (fadd grid (probability c') (table_get d ''N'' us))) \<and>
      comprehension (transition_prob grid V 1 near_transition us ''N'') ex_states = Inr probs \<and>
      python_max probs = Inr m \<and>
      m \<in> set probs \<and> (\<forall>x \<in> set probs. x \<le> m) \<and>
      filter (\<lambda>p. transition_prob grid V 1 near_transition us ''N'' p = Inr m) ex_states \<noteq> [] \<and>
      backpointer c =
        Some (last (filter (\<lambda>p. transition_prob grid V 1 near_transition us ''N'' p = Inr m)
          ex_states)))"
proof -
  have h1: "wellformed_model grid 10 ex_states near_initial flat_emission near_transition"
    by (rule flat_wellformed)
  have h2: "[''a'', ''a''] \<noteq> ([] :: string list)" by simp
  have h3: "(1::nat) \<le> 1" by simp
  have h4: "1 < length [''a'', ''a'']" by simp
  have h5: "''N'' \<in> set ex_states" by (simp add: ex_states_def)
  have g1: "viterbi_matrix grid [''a'', ''a''] 10 ex_states near_initial flat_emission
      near_transition = Inr near_trellis"
    by (rule near_viterbi_matrix)
  have g2: "comprehension (transition_prob grid near_trellis 1 near_transition (ln (1 / 2 * K))
      ''N'') ex_states = Inr [-1, -1]"
    using grid_sums
    by (simp add: grid_defs ex_states_def near_transition_def near_trellis_def)
  have g3: "python_max [-1, -1] = Inr (-1)" by (simp add: python_max_def)
  have g4: "dict_item (near_trellis ! 1) ''N'' =
      Inr \<lparr>probability = -1, backpointer = Some ''V''\<rparr>"
    by (simp add: dict_item_def near_trellis_def)
  have e1: "viterbi_matrix exact [''b'', ''a''] 10 ex_states ex_initial ex_emission
      ex_transition = Inr swap_trellis"
    by (rule swap_viterbi_matrix)
  have e2: "comprehension (transition_prob exact swap_trellis 1 ex_transition (ln (1 / 2 * K))
      ''N'') ex_states = Inr [-6, -4]"
    by (simp add: eval_defs ex_states_def ex_transition_def swap_trellis_def)
  have e3: "python_max [-6, -4] = Inr (-4)" by (simp add: python_max_def)
  have e4: "dict_item (swap_trellis ! 1) ''N'' =
      Inr \<lparr>probability = -5, backpointer = Some ''V''\<rparr>"
    by (simp add: dict_item_def swap_trellis_def)
  show ?thesis
    by (intro conjI)
       (fact h1 h2 h3 h4 h5 g1 g2 g3 g4 e1 e2 e3 e4
          backpointer_is_last_best_predecessor[OF h1 h2 h3 h4 h5])+
qed

subsection \<open>C2: one output line per input line\<close>

text \<open>
  C2 as stated says that the line is split on whitespace. The code calls
  \<^verbatim>\<open>line.strip().split(" ")\<close>: a tab inside the line does not separate tokens, and two
  spaces in a row give an empty token. The line \<open>a<TAB>b\<close> is one token, where a split
  on whitespace gives two, and is tagged as one; the line \<open>a  b\<close> gives three tokens,
  the middle one empty, where a split on whitespace gives two.
\<close>

theorem whitespace_split_counterexample:
  "split_space (strip (''a'' @ [CHR 0x09] @ ''b'' @ [CHR 0x0A])) = [''a'' @ [CHR 0x09] @ ''b''] \<and>
   whitespace_split (''a'' @ [CHR 0x09] @ ''b'' @ [CHR 0x0A]) = [''a'', ''b''] \<and>
   split_space (strip (''a  b'' @ [CHR 0x0A])) = [''a'', '''', ''b''] \<and>
   whitespace_split (''a  b'' @ [CHR 0x0A]) = [''a'', ''b''] \<and>
   tag_sentence exact [''a'' @ [CHR 0x09] @ ''b'' @ [CHR 0x0A]] 10 ex_states ex_initial ex_emission
     ex_transition = Inr (''a'' @ [CHR 0x09] @ ''b/N'' @ [CHR 0x0A])"
  by (simp add: lines_defs whitespace_split_def eval_defs ex_states_def ex_initial_def
      ex_emission_def ex_transition_def)

text \<open>
  C2, amended: for a well-formed model and every list of input lines,
  \<^verbatim>\<open>tag_sentence\<close> raises no error and writes one output line per input line, in the
  order of the input. The observation of a line is the line without its leading and
  trailing whitespace, cut at every single space: it is not empty, its tokens contain no
  space, and joined by single spaces they give the stripped line back. Output line \<open>i\<close>
  is what \<^verbatim>\<open>viterbi\<close> returns for the observation of input line \<open>i\<close>: its
  \<open>token/tag\<close> pairs, the tags being states, joined by single spaces.
\<close>

theorem tag_sentence_lines:
  assumes "wellformed_model A n states init em tr"
  shows "\<exists>result.
      line_loop A n states init em tr test_lines [] = Inr result \<and>
      length result = length test_lines \<and>
      tag_sentence A test_lines n states init em tr =
        Inr (concat (map (\<lambda>line. line @ [CHR 0x0A]) result)) \<and>
      (\<forall>i < length test_lines. \<exists>tags.
         split_space (strip (test_lines ! i)) \<noteq> [] \<and>
         join_spaces (split_space (strip (test_lines ! i))) = strip (test_lines ! i) \<and>
         (\<forall>w \<in> set (split_space (strip (test_lines ! i))). CHR '' '' \<notin> set w) \<and>
         length tags = length (split_space (strip (test_lines ! i))) \<and>
         set tags \<subseteq> set states \<and>
         viterbi A (split_space (strip (test_lines ! i))) n states init em tr =
           Inr (result ! i) \<and>
         result ! i =
           join_spaces (map pair_text (zip (split_space (strip (test_lines ! i))) tags)))"
proof -
  define g where "g line = projr (viterbi A (split_space (strip line)) n states init em tr)"
    for line
  have dec: "\<exists>tags. length tags = length (split_space (strip line)) \<and> set tags \<subseteq> set states \<and>
      viterbi A (split_space (strip line)) n states init em tr = Inr (g line) \<and>
      g line = join_spaces (map pair_text (zip (split_space (strip line)) tags))" for line
  proof -
    obtain ts where ts: "length ts = length (split_space (strip line))" "set ts \<subseteq> set states"
      "viterbi A (split_space (strip line)) n states init em tr =
         Inr (join_spaces (map pair_text (zip (split_space (strip line)) ts)))"
      using viterbi_closed[OF assms split_space_nonempty[of "strip line"]] by blast
    then show ?thesis by (intro exI[of _ ts]) (simp add: g_def)
  qed
  then have ll: "line_loop A n states init em tr test_lines [] = Inr ([] @ map g test_lines)"
    by (intro line_loop_closed) blast
  have ts: "tag_sentence A test_lines n states init em tr =
      Inr (concat (map (\<lambda>line. line @ [CHR 0x0A]) (map g test_lines)))"
    using ll by (simp add: tag_sentence_def)
  have each: "\<forall>i < length test_lines. \<exists>tags.
         split_space (strip (test_lines ! i)) \<noteq> [] \<and>
         join_spaces (split_space (strip (test_lines ! i))) = strip (test_lines ! i) \<and>
         (\<forall>w \<in> set (split_space (strip (test_lines ! i))). CHR '' '' \<notin> set w) \<and>
         length tags = length (split_space (strip (test_lines ! i))) \<and>
         set tags \<subseteq> set states \<and>
         viterbi A (split_space (strip (test_lines ! i))) n states init em tr =
           Inr (map g test_lines ! i) \<and>
         map g test_lines ! i =
           join_spaces (map pair_text (zip (split_space (strip (test_lines ! i))) tags))"
  proof (intro allI impI)
    fix i assume i: "i < length test_lines"
    obtain tags where t: "length tags = length (split_space (strip (test_lines ! i)))"
      "set tags \<subseteq> set states"
      "viterbi A (split_space (strip (test_lines ! i))) n states init em tr = Inr (g (test_lines ! i))"
      "g (test_lines ! i) =
         join_spaces (map pair_text (zip (split_space (strip (test_lines ! i))) tags))"
      using dec[of "test_lines ! i"] by blast
    show "\<exists>tags.
         split_space (strip (test_lines ! i)) \<noteq> [] \<and>
         join_spaces (split_space (strip (test_lines ! i))) = strip (test_lines ! i) \<and>
         (\<forall>w \<in> set (split_space (strip (test_lines ! i))). CHR '' '' \<notin> set w) \<and>
         length tags = length (split_space (strip (test_lines ! i))) \<and>
         set tags \<subseteq> set states \<and>
         viterbi A (split_space (strip (test_lines ! i))) n states init em tr =
           Inr (map g test_lines ! i) \<and>
         map g test_lines ! i =
           join_spaces (map pair_text (zip (split_space (strip (test_lines ! i))) tags))"
      using t i split_space_nonempty join_split_space split_space_no_space
      by (intro exI[of _ tags]) auto
  qed
  show ?thesis
    using ll ts each by (intro exI[of _ "map g test_lines"]) simp
qed

theorem tag_sentence_lines_witness:
  "wellformed_model exact 10 ex_states ex_initial ex_emission ex_transition \<and>
   tag_sentence exact [''a b'' @ [CHR 0x0A], ''b''] 10 ex_states ex_initial ex_emission ex_transition =
     Inr (''a/N b/V'' @ [CHR 0x0A] @ ''b/V'' @ [CHR 0x0A]) \<and>
   (\<exists>result.
      line_loop exact 10 ex_states ex_initial ex_emission ex_transition
        [''a b'' @ [CHR 0x0A], ''b''] [] = Inr result \<and>
      length result = length [''a b'' @ [CHR 0x0A], ''b''] \<and>
      tag_sentence exact [''a b'' @ [CHR 0x0A], ''b''] 10 ex_states ex_initial ex_emission
        ex_transition = Inr (concat (map (\<lambda>line. line @ [CHR 0x0A]) result)))"
proof -
  have h1: "wellformed_model exact 10 ex_states ex_initial ex_emission ex_transition"
    by (rule ex_wellformed)
  have e: "tag_sentence exact [''a b'' @ [CHR 0x0A], ''b''] 10 ex_states ex_initial ex_emission
      ex_transition = Inr (''a/N b/V'' @ [CHR 0x0A] @ ''b/V'' @ [CHR 0x0A])"
    by (simp add: lines_defs eval_defs ex_states_def ex_initial_def ex_emission_def
        ex_transition_def)
  show ?thesis
    using h1 e
      tag_sentence_lines[OF h1, of "[''a b'' @ [CHR 0x0A], ''b'']"]
    by blast
qed

subsection \<open>C3: backtracking cannot fail\<close>

text \<open>
  C3: for a well-formed model and an observation of length at least 1, on the matrix
  \<open>V\<close> that \<open>viterbi_matrix\<close> returns the maximum over the last row is computed
  without an error, a cell \<open>(s, c)\<close> of the last row has exactly that probability, and
  the loop of lines 63 to 67 stops at it whatever \<^verbatim>\<open>tags\<close> and \<^verbatim>\<open>pre_tag\<close> it
  starts from: the initial \<^verbatim>\<open>pre_tag = "RDM"\<close> is overwritten by a state before it is
  used as a key. \<open>backtrack_viterbi_matrix\<close> returns one tag per token, and every tag
  is a state of the model.
\<close>

theorem backtrack_cannot_fail:
  assumes "wellformed_model A n states init em tr" and "obs \<noteq> []"
    and "viterbi_matrix A obs n states init em tr = Inr V"
  shows "\<exists>m s c ts.
      python_max (map (\<lambda>item. probability (snd item)) (last V)) = Inr m \<and>
      (s, c) \<in> set (last V) \<and> probability c = m \<and> s \<in> set states \<and>
      (\<forall>tags pre_tag. final_loop (last V) m tags pre_tag = (tags @ [Some s], Some s)) \<and>
      backtrack_viterbi_matrix V = Inr (map Some ts) \<and>
      length ts = length obs \<and> set ts \<subseteq> set states"
proof -
  let ?m = "Max (set (map (\<lambda>item. probability (snd item)) (last V)))"
  obtain V' ts item where v: "viterbi_matrix A obs n states init em tr = Inr V'"
    "V' = closed_trellis A obs n states init em tr"
    "backtrack_viterbi_matrix V' = Inr (map Some ts)" "length ts = length obs"
    "set ts \<subseteq> set states"
    "find (\<lambda>item. probability (snd item) = Max (set (map (\<lambda>item. probability (snd item)) (last V'))))
       (last V') = Some item"
    using viterbi_closed[OF assms(1,2)] by blast
  have eq: "V' = V" using v(1) assms(3) by simp
  have wf: "states \<noteq> []" "distinct states"
    using assms(1) by (auto simp: wellformed_model_def)
  have ok: "trellis_ok states V" using closed_trellis_ok[OF wf] v(2) eq by simp
  then have ne: "V \<noteq> []" by (simp add: trellis_ok_def)
  have keys: "map fst (last V) = states"
    using trellis_ok_keys[OF ok, of "length V - 1"] ne by (simp add: last_conv_nth)
  then have rne: "last V \<noteq> []" using wf by auto
  have pm: "python_max (map (\<lambda>item. probability (snd item)) (last V)) = Inr ?m"
    using rne by (intro python_max_Max) simp
  have f: "find (\<lambda>item. probability (snd item) = ?m) (last V) = Some item"
    using v(6) eq by simp
  then have mem: "item \<in> set (last V)" and pr: "probability (snd item) = ?m"
    by (auto simp: find_Some_iff)
  have s: "fst item \<in> set states" using mem keys by (metis image_eqI list.set_map)
  have fl: "\<forall>tags pre_tag. final_loop (last V) ?m tags pre_tag =
      (tags @ [Some (fst item)], Some (fst item))"
    by (simp only: final_loop_find f option.case) simp
  have "(fst item, snd item) \<in> set (last V)" using mem by simp
  then show ?thesis
    using pm pr s fl v(3,4,5) eq by blast
qed

theorem backtrack_cannot_fail_witness:
  "wellformed_model exact 10 ex_states ex_initial ex_emission ex_transition \<and>
   ex_observation \<noteq> [] \<and>
   viterbi_matrix exact ex_observation 10 ex_states ex_initial ex_emission ex_transition =
     Inr ex_trellis \<and>
   (\<exists>m s c ts.
      python_max (map (\<lambda>item. probability (snd item)) (last ex_trellis)) = Inr m \<and>
      (s, c) \<in> set (last ex_trellis) \<and> probability c = m \<and> s \<in> set ex_states \<and>
      (\<forall>tags pre_tag. final_loop (last ex_trellis) m tags pre_tag = (tags @ [Some s], Some s)) \<and>
      backtrack_viterbi_matrix ex_trellis = Inr (map Some ts) \<and>
      length ts = length ex_observation \<and> set ts \<subseteq> set ex_states)"
proof -
  have h1: "wellformed_model exact 10 ex_states ex_initial ex_emission ex_transition"
    by (rule ex_wellformed)
  have h2: "ex_observation \<noteq> []" by (rule ex_observation_nonempty)
  have h3: "viterbi_matrix exact ex_observation 10 ex_states ex_initial ex_emission ex_transition =
     Inr ex_trellis"
    by (rule ex_viterbi_matrix)
  show ?thesis
    using h1 h2 h3 backtrack_cannot_fail[OF h1 h2 h3] by blast
qed

subsection \<open>C4: the shape of the matrix\<close>

text \<open>
  C4: for a well-formed model with \<open>S\<close> states and an observation of length
  \<open>n \<ge> 1\<close>, the matrix has \<open>n\<close> rows, every row has the \<open>S\<close> states as its keys
  (so \<open>S\<close> cells, and \<open>n * S\<close> cells in all), every cell at a step \<open>t \<ge> 1\<close> holds one
  backpointer, which is a state, and the tag sequence has length \<open>n\<close>.
\<close>

theorem trellis_shape:
  assumes "wellformed_model A n states init em tr" and "obs \<noteq> []"
  shows "\<exists>V tags.
      viterbi_matrix A obs n states init em tr = Inr V \<and>
      length V = length obs \<and>
      list_all (\<lambda>r. map fst r = states) V \<and>
      list_all (\<lambda>r. length r = length states) V \<and>
      length (concat V) = length obs * length states \<and>
      (\<forall>t s. 1 \<le> t \<and> t < length obs \<and> s \<in> set states \<longrightarrow>
         (\<exists>c p. dict_item (V ! t) s = Inr c \<and> backpointer c = Some p \<and> p \<in> set states)) \<and>
      backtrack_viterbi_matrix V = Inr tags \<and>
      length tags = length obs"
proof -
  obtain V ts where v: "viterbi_matrix A obs n states init em tr = Inr V"
    "V = closed_trellis A obs n states init em tr"
    "backtrack_viterbi_matrix V = Inr (map Some ts)" "length ts = length obs"
    using viterbi_closed[OF assms] by blast
  have wf: "states \<noteq> []" "distinct states"
    using assms(1) by (auto simp: wellformed_model_def)
  have ok: "trellis_ok states V" unfolding v(2) using wf by (rule closed_trellis_ok)
  have len: "length V = length obs" unfolding v(2) using assms(2) by (rule length_closed_trellis)
  have keys: "list_all (\<lambda>r. map fst r = states) V" using ok by (rule trellis_ok_all_keys)
  have lens: "list_all (\<lambda>r. length r = length states) V"
    using keys by (auto simp: list_all_iff dest: arg_cong[where f = length])
  have total: "length (concat V) = length obs * length states"
    using length_concat_rows[OF lens] len by simp
  have bp: "\<forall>t s. 1 \<le> t \<and> t < length obs \<and> s \<in> set states \<longrightarrow>
         (\<exists>c p. dict_item (V ! t) s = Inr c \<and> backpointer c = Some p \<and> p \<in> set states)"
    using trellis_ok_backpointer[OF ok] len by auto
  show ?thesis
    using v(1,3,4) len keys lens total bp by (intro exI[of _ V] exI[of _ "map Some ts"]) simp
qed

theorem trellis_shape_witness:
  "wellformed_model exact 10 ex_states ex_initial ex_emission ex_transition \<and>
   ex_observation \<noteq> [] \<and>
   (\<exists>V tags.
      viterbi_matrix exact ex_observation 10 ex_states ex_initial ex_emission ex_transition = Inr V \<and>
      length V = 2 \<and> length (concat V) = 2 * 2 \<and>
      backtrack_viterbi_matrix V = Inr tags \<and> length tags = 2)"
proof -
  have h1: "wellformed_model exact 10 ex_states ex_initial ex_emission ex_transition"
    by (rule ex_wellformed)
  have h2: "ex_observation \<noteq> []" by (rule ex_observation_nonempty)
  have l: "length ex_observation = 2" "length ex_states = 2"
    by (simp_all add: ex_observation_def ex_states_def)
  show ?thesis
    using h1 h2 trellis_shape[OF h1 h2] unfolding l by blast
qed

subsection \<open>C5: the scenario of the spec\<close>

text \<open>
  C5: with the states \<open>N\<close> and \<open>V\<close>, vocabulary size 10 and the tables of the spec's
  scenario, decoding \<open>dog run\<close> returns \<open>dog/N run/V\<close>. The scenario is evaluated
  without rounding: the scores that are compared differ by more than 5.
\<close>

theorem dog_run_scenario:
  "viterbi exact [''dog'', ''run''] 10 dog_states dog_initial dog_emission dog_transition =
     Inr ''dog/N run/V''"
proof -
  define iN iV where "iN = ln (0.6::real)" and "iV = ln (0.4::real)"
  define tNV tNN tVN tVV where "tNV = ln (0.7::real)" and "tNN = ln (0.3::real)"
    and "tVN = ln (0.9::real)" and "tVV = ln (0.1::real)"
  define eN eV where "eN = ln (0.5::real)" and "eV = ln (0.6::real)"
  define uw us where "uw = ln (0.001::real)" and "us = ln (0.005::real)"
  have u1: "unknown_prob exact 10 = Inr uw"
    by (simp add: unknown_prob_def math_log_def K_def uw_def exact_simps)
  have u2: "unknown_prob exact 2 = Inr us"
    by (simp add: unknown_prob_def math_log_def K_def us_def exact_simps)
  have tables:
    "dog_initial = [''N'' \<mapsto> iN, ''V'' \<mapsto> iV]"
    "dog_transition = [''N'' \<mapsto> [''V'' \<mapsto> tNV, ''N'' \<mapsto> tNN], ''V'' \<mapsto> [''N'' \<mapsto> tVN, ''V'' \<mapsto> tVV]]"
    "dog_emission = [''N'' \<mapsto> [''dog'' \<mapsto> eN], ''V'' \<mapsto> [''run'' \<mapsto> eV]]"
    by (simp_all only: dog_initial_def dog_transition_def dog_emission_def iN_def iV_def
        tNV_def tNN_def tVN_def tVV_def eN_def eV_def)
  have f1: "iV + uw + tVN < iN + eN + tNN"
    unfolding iN_def iV_def uw_def tVN_def eN_def tNN_def by (rule ln_sum3_less) simp_all
  have f2: "iV + uw + tVV < iN + eN + tNV"
    unfolding iN_def iV_def uw_def tVV_def eN_def tNV_def by (rule ln_sum3_less) simp_all
  have f3: "tNN + uw < tNV + eV"
    unfolding uw_def eV_def tNN_def tNV_def by (rule ln_sum2_less) simp_all
  show ?thesis
    unfolding tables using f1 f2 f3
    by (simp add: run_defs u1 u2 dog_states_def)
qed

subsection \<open>C6: the smoothing fallbacks\<close>

text \<open>
  C6: in every arithmetic, for a well-formed model with vocabulary size \<open>n\<close> and \<open>S\<close>
  states (so the products \<open>(1/n) * 0.01\<close> and \<open>(1/S) * 0.01\<close>, as the arithmetic
  computes them, are positive), the two values bound once at lines 19 and 20 are the
  logarithms of these products; a \<^verbatim>\<open>get\<close> on a table without the key returns the
  fallback; \<^verbatim>\<open>viterbi\<close> returns an output for every observation that is not empty,
  whatever tokens it holds; and in the matrix a cell whose token is missing from the
  state's emission table is scored with the first value, and a transition missing from
  the predecessor's table with the second. For a vocabulary size that is not zero and
  whose product is not positive (a negative size, or a size so large that the product
  underflows to zero) line 19 raises ValueError, and so does \<^verbatim>\<open>viterbi\<close>.
\<close>

theorem smoothing_fallbacks:
  assumes "wellformed_model A n states init em tr" and "obs \<noteq> []"
  shows "(\<exists>uw us V out.
      uw = flog A (fmul A (fdiv A 1 (real_of_int n)) 0.01) \<and>
      us = flog A (fmul A (fdiv A 1 (real (length states))) 0.01) \<and>
      unknown_prob A n = Inr uw \<and>
      unknown_prob A (int (length states)) = Inr us \<and>
      (\<forall>d k. d k = None \<longrightarrow> table_get d k uw = uw \<and> table_get d k us = us) \<and>
      viterbi_matrix A obs n states init em tr = Inr V \<and>
      viterbi A obs n states init em tr = Inr out \<and>
      (\<forall>s i e. s \<in> set states \<and> init s = Some i \<and> em s = Some e \<and> e (obs ! 0) = None \<longrightarrow>
         dict_item (V ! 0) s = Inr \<lparr>probability = fadd A i uw, backpointer = None\<rparr>) \<and>
      (\<forall>t s p d c. 1 \<le> t \<and> t < length obs \<and> p \<in> set states \<and> tr p = Some d \<and> d s = None \<and>
           dict_item (V ! (t - 1)) p = Inr c \<longrightarrow>
         transition_prob A V t tr us s p = Inr (fadd A (probability c) us)) \<and>
      (\<forall>t s e. 1 \<le> t \<and> t < length obs \<and> s \<in> set states \<and> em s = Some e \<and>
           e (obs ! t) = None \<longrightarrow>
         (\<exists>c probs m. dict_item (V ! t) s = Inr c \<and>
            comprehension (transition_prob A V t tr us s) states = Inr probs \<and>
            python_max probs = Inr m \<and> probability c = fadd A m uw))) \<and>
     (\<forall>count. count \<noteq> 0 \<and> fmul A (fdiv A 1 (real_of_int count)) 0.01 \<le> 0 \<longrightarrow>
        unknown_prob A count = Inl ValueError \<and>
        viterbi A obs count states init em tr = Inl ValueError)"
proof -
  define uw where "uw = flog A (smoothing_argument A (real_of_int n))"
  define us where "us = flog A (smoothing_argument A (real (length states)))"
  have wf: "n \<noteq> 0" "states \<noteq> []" "distinct states" "set states \<subseteq> dom tr"
    using assms(1) by (auto simp: wellformed_model_def)
  obtain V ts where v: "viterbi_matrix A obs n states init em tr = Inr V"
    "V = closed_trellis A obs n states init em tr"
    "viterbi A obs n states init em tr = Inr (join_spaces (map pair_text (zip obs ts)))"
    using viterbi_closed[OF assms] by blast
  have ok: "trellis_ok states V" unfolding v(2) using wf(2,3) by (rule closed_trellis_ok)
  have len: "length V = length obs" unfolding v(2) using assms(2) by (rule length_closed_trellis)
  have uw_eq: "uw = flog A (fmul A (fdiv A 1 (real_of_int n)) 0.01)"
    by (simp add: uw_def smoothing_argument_def K_def)
  have us_eq: "us = flog A (fmul A (fdiv A 1 (real (length states))) 0.01)"
    by (simp add: us_def smoothing_argument_def K_def)
  have u1: "unknown_prob A n = Inr uw" unfolding uw_def using assms(1) by (rule wellformed_unknown_prob(1))
  have u2: "unknown_prob A (int (length states)) = Inr us"
    unfolding us_def using assms(1) by (rule wellformed_unknown_prob(2))
  have get: "\<forall>d k. d k = None \<longrightarrow> table_get d k uw = uw \<and> table_get d k us = us"
    by (simp add: table_get_def)
  have row0: "V ! 0 = initial_row A init em uw (hd obs) states"
    unfolding v(2) uw_def by (rule closed_trellis_0)
  have c0: "\<forall>s i e. s \<in> set states \<and> init s = Some i \<and> em s = Some e \<and> e (obs ! 0) = None \<longrightarrow>
         dict_item (V ! 0) s = Inr \<lparr>probability = fadd A i uw, backpointer = None\<rparr>"
    using assms(2)
    by (auto simp: row0 dict_item_initial_row initial_score_def table_get_def hd_conv_nth)
  have tp: "\<forall>t s p d c. 1 \<le> t \<and> t < length obs \<and> p \<in> set states \<and> tr p = Some d \<and> d s = None \<and>
           dict_item (V ! (t - 1)) p = Inr c \<longrightarrow>
         transition_prob A V t tr us s p = Inr (fadd A (probability c) us)"
  proof (intro allI impI)
    fix t s p d c
    assume a: "1 \<le> t \<and> t < length obs \<and> p \<in> set states \<and> tr p = Some d \<and> d s = None \<and>
           dict_item (V ! (t - 1)) p = Inr c"
    then have "transition_prob A V t tr us s p = Inr (score A (V ! (t - 1)) tr us s p)"
      using ok len by (intro transition_prob_trellis) auto
    moreover have "map_of (V ! (t - 1)) p = Some c"
      using a by (auto simp: dict_item_def split: option.splits)
    ultimately show "transition_prob A V t tr us s p = Inr (fadd A (probability c) us)"
      using a by (simp add: score_def table_get_def)
  qed
  have ct: "\<forall>t s e. 1 \<le> t \<and> t < length obs \<and> s \<in> set states \<and> em s = Some e \<and>
           e (obs ! t) = None \<longrightarrow>
         (\<exists>c probs m. dict_item (V ! t) s = Inr c \<and>
            comprehension (transition_prob A V t tr us s) states = Inr probs \<and>
            python_max probs = Inr m \<and> probability c = fadd A m uw)"
  proof (intro allI impI)
    fix t s e
    assume a: "1 \<le> t \<and> t < length obs \<and> s \<in> set states \<and> em s = Some e \<and> e (obs ! t) = None"
    define prev where "prev = V ! (t - 1)"
    have row: "V ! t = next_row A prev states em tr uw us (obs ! t)"
      unfolding v(2) prev_def uw_def us_def using a by (intro closed_trellis_nth) auto
    have c: "dict_item (V ! t) s = Inr (next_cell A prev states em tr uw us (obs ! t) s)"
      unfolding row using a by (intro dict_item_next_row) auto
    have probs: "comprehension (transition_prob A V t tr us s) states =
        Inr (map (score A prev tr us s) states)"
      unfolding prev_def using ok a len wf(4) by (intro probs_trellis) auto
    have mx: "python_max (map (score A prev tr us s) states) = Inr (best_score A prev states tr us s)"
      using wf(2) by (simp add: python_max_Max best_score_def)
    have "probability (next_cell A prev states em tr uw us (obs ! t) s) =
        fadd A (best_score A prev states tr us s) uw"
      using a by (simp add: next_cell_def table_get_def)
    then show "\<exists>c probs m. dict_item (V ! t) s = Inr c \<and>
            comprehension (transition_prob A V t tr us s) states = Inr probs \<and>
            python_max probs = Inr m \<and> probability c = fadd A m uw"
      using c probs mx by blast
  qed
  have main: "\<exists>uw us V out.
      uw = flog A (fmul A (fdiv A 1 (real_of_int n)) 0.01) \<and>
      us = flog A (fmul A (fdiv A 1 (real (length states))) 0.01) \<and>
      unknown_prob A n = Inr uw \<and>
      unknown_prob A (int (length states)) = Inr us \<and>
      (\<forall>d k. d k = None \<longrightarrow> table_get d k uw = uw \<and> table_get d k us = us) \<and>
      viterbi_matrix A obs n states init em tr = Inr V \<and>
      viterbi A obs n states init em tr = Inr out \<and>
      (\<forall>s i e. s \<in> set states \<and> init s = Some i \<and> em s = Some e \<and> e (obs ! 0) = None \<longrightarrow>
         dict_item (V ! 0) s = Inr \<lparr>probability = fadd A i uw, backpointer = None\<rparr>) \<and>
      (\<forall>t s p d c. 1 \<le> t \<and> t < length obs \<and> p \<in> set states \<and> tr p = Some d \<and> d s = None \<and>
           dict_item (V ! (t - 1)) p = Inr c \<longrightarrow>
         transition_prob A V t tr us s p = Inr (fadd A (probability c) us)) \<and>
      (\<forall>t s e. 1 \<le> t \<and> t < length obs \<and> s \<in> set states \<and> em s = Some e \<and>
           e (obs ! t) = None \<longrightarrow>
         (\<exists>c probs m. dict_item (V ! t) s = Inr c \<and>
            comprehension (transition_prob A V t tr us s) states = Inr probs \<and>
            python_max probs = Inr m \<and> probability c = fadd A m uw))"
    by (intro exI[of _ uw] exI[of _ us] exI[of _ V]
          exI[of _ "join_spaces (map pair_text (zip obs ts))"] conjI)
       (fact uw_eq us_eq u1 u2 get v(1) v(3) c0 tp ct)+
  have err: "\<forall>count. count \<noteq> 0 \<and> fmul A (fdiv A 1 (real_of_int count)) 0.01 \<le> 0 \<longrightarrow>
        unknown_prob A count = Inl ValueError \<and>
        viterbi A obs count states init em tr = Inl ValueError"
    by (simp add: unknown_prob_def math_log_def K_def viterbi_def viterbi_matrix_def)
  show ?thesis using main err by (rule conjI)
qed

theorem smoothing_fallbacks_witness:
  "wellformed_model exact 10 ex_states ex_initial sparse_emission sparse_transition \<and>
   wellformed_model flushing 10 ex_states ex_initial sparse_emission sparse_transition \<and>
   ex_observation \<noteq> [] \<and>
   (\<exists>uw us V out.
      unknown_prob exact 10 = Inr uw \<and> uw = ln (1 / 1000) \<and>
      unknown_prob exact (int (length ex_states)) = Inr us \<and> us = ln (1 / 200) \<and>
      viterbi_matrix exact ex_observation 10 ex_states ex_initial sparse_emission
        sparse_transition = Inr V \<and>
      viterbi exact ex_observation 10 ex_states ex_initial sparse_emission sparse_transition =
        Inr out \<and>
      dict_item (V ! 0) ''V'' = Inr \<lparr>probability = -2 + uw, backpointer = None\<rparr>) \<and>
   unknown_prob flushing (10 ^ 400) = Inl ValueError \<and>
   viterbi flushing ex_observation (10 ^ 400) ex_states ex_initial sparse_emission
     sparse_transition = Inl ValueError"
proof -
  have h1: "wellformed_model exact 10 ex_states ex_initial sparse_emission sparse_transition"
    by (simp add: wellformed_model_def smoothing_argument_def exact_simps K_def ex_states_def
        ex_initial_def sparse_emission_def sparse_transition_def)
  have h1': "wellformed_model flushing 10 ex_states ex_initial sparse_emission sparse_transition"
    by (simp add: wellformed_model_def smoothing_argument_def flushing_def K_def ex_states_def
        ex_initial_def sparse_emission_def sparse_transition_def)
  have h2: "ex_observation \<noteq> []" by (rule ex_observation_nonempty)
  obtain uw us V out where r:
    "uw = flog exact (fmul exact (fdiv exact 1 (real_of_int 10)) 0.01)"
    "us = flog exact (fmul exact (fdiv exact 1 (real (length ex_states))) 0.01)"
    "unknown_prob exact 10 = Inr uw" "unknown_prob exact (int (length ex_states)) = Inr us"
    "viterbi_matrix exact ex_observation 10 ex_states ex_initial sparse_emission
       sparse_transition = Inr V"
    "viterbi exact ex_observation 10 ex_states ex_initial sparse_emission sparse_transition =
       Inr out"
    "\<forall>s i e. s \<in> set ex_states \<and> ex_initial s = Some i \<and> sparse_emission s = Some e \<and>
        e (ex_observation ! 0) = None \<longrightarrow>
        dict_item (V ! 0) s = Inr \<lparr>probability = fadd exact i uw, backpointer = None\<rparr>"
    using conjunct1[OF smoothing_fallbacks[OF h1 h2]] by blast
  have "''V'' \<in> set ex_states \<and> ex_initial ''V'' = Some (-2) \<and>
      sparse_emission ''V'' = Some [''b'' \<mapsto> -1] \<and> [''b'' \<mapsto> -1::real] (ex_observation ! 0) = None"
    by (simp add: ex_states_def ex_initial_def sparse_emission_def ex_observation_def)
  then have "dict_item (V ! 0) ''V'' = Inr \<lparr>probability = fadd exact (-2) uw, backpointer = None\<rparr>"
    using r(7) by blast
  then have c: "dict_item (V ! 0) ''V'' = Inr \<lparr>probability = -2 + uw, backpointer = None\<rparr>"
    by (simp add: exact_simps)
  have uw: "uw = ln (1 / 1000)" unfolding r(1) by (simp add: exact_simps)
  have us: "us = ln (1 / 200)" unfolding r(2) by (simp add: exact_simps ex_states_def)
  have under: "(10 ^ 400 :: int) \<noteq> 0 \<and>
      fmul flushing (fdiv flushing 1 (real_of_int (10 ^ 400))) 0.01 \<le> 0"
    by (simp add: flushing_def)
  have e: "unknown_prob flushing (10 ^ 400) = Inl ValueError \<and>
      viterbi flushing ex_observation (10 ^ 400) ex_states ex_initial sparse_emission
        sparse_transition = Inl ValueError"
    using conjunct2[OF smoothing_fallbacks[OF h1' h2]] under by blast
  show ?thesis using h1 h1' h2 r(3-6) c uw us e by blast
qed

subsection \<open>C7: an observation of one token\<close>

text \<open>
  C7: in every arithmetic, for a well-formed model and the observation \<open>[token]\<close>, the
  score of a state \<open>s'\<close> is \<^verbatim>\<open>initial[s'] + emission[s'].get(token, unknown_word_prob)\<close>
  as the arithmetic computes the sum; \<^verbatim>\<open>max\<close> returns a value \<open>m\<close> that is one of
  the scores and that no score exceeds; the output is \<open>token/s\<close> where \<open>s\<close> is the
  first state, in the order of \<open>states\<close>, whose score equals \<open>m\<close>; and the matrix is
  the single row that the loop of lines 23 to 28 built: the range of the loop of line 30
  is empty.
\<close>

theorem single_token_tag:
  assumes "wellformed_model A n states init em tr"
  shows "\<exists>uw probs m s row.
      unknown_prob A n = Inr uw \<and>
      (\<forall>s' \<in> set states. \<exists>i e. init s' = Some i \<and> em s' = Some e \<and>
         initial_prob A [token] init em uw s' = Inr (fadd A i (table_get e token uw))) \<and>
      comprehension (initial_prob A [token] init em uw) states = Inr probs \<and>
      python_max probs = Inr m \<and>
      m \<in> set probs \<and> (\<forall>x \<in> set probs. x \<le> m) \<and>
      find (\<lambda>s'. initial_prob A [token] init em uw s' = Inr m) states = Some s \<and>
      viterbi A [token] n states init em tr = Inr (token @ ''/'' @ s) \<and>
      initial_loop A [token] init em uw states [[]] = Inr [row] \<and>
      [1..<length [token]] = [] \<and>
      viterbi_matrix A [token] n states init em tr = Inr [row]"
proof -
  define uw where "uw = flog A (smoothing_argument A (real_of_int n))"
  define row where "row = initial_row A init em uw token states"
  define m where "m = Max (set (map (initial_score A init em uw token) states))"
  have wf: "n \<noteq> 0" "states \<noteq> []" "distinct states" "set states \<subseteq> dom init"
    "set states \<subseteq> dom em"
    using assms by (auto simp: wellformed_model_def)
  have ne: "[token] \<noteq> []" by simp
  obtain V ts item where v: "viterbi_matrix A [token] n states init em tr = Inr V"
    "V = closed_trellis A [token] n states init em tr"
    "length ts = length [token]"
    "find (\<lambda>item. probability (snd item) = Max (set (map (\<lambda>item. probability (snd item)) (last V))))
       (last V) = Some item" "last ts = fst item"
    "viterbi A [token] n states init em tr = Inr (join_spaces (map pair_text (zip [token] ts)))"
    using viterbi_closed[OF assms ne] by blast
  have V: "V = [row]" unfolding v(2) row_def uw_def by (rule closed_trellis_single)
  have u: "unknown_prob A n = Inr uw" unfolding uw_def using assms(1) by (rule wellformed_unknown_prob(1))
  have ip: "initial_prob A [token] init em uw s' = Inr (initial_score A init em uw token s')"
    if "s' \<in> set states" for s'
    using that wf(4,5) initial_prob_closed[of s' init em "[token]" A uw] by auto
  have explicit: "\<forall>s' \<in> set states. \<exists>i e. init s' = Some i \<and> em s' = Some e \<and>
         initial_prob A [token] init em uw s' = Inr (fadd A i (table_get e token uw))"
  proof
    fix s' assume s': "s' \<in> set states"
    then obtain i e where ie: "init s' = Some i" "em s' = Some e" using wf(4,5) by blast
    then show "\<exists>i e. init s' = Some i \<and> em s' = Some e \<and>
         initial_prob A [token] init em uw s' = Inr (fadd A i (table_get e token uw))"
      using initial_prob_explicit[of init s' i em e "[token]" A uw] by simp
  qed
  have probs: "comprehension (initial_prob A [token] init em uw) states =
      Inr (map (initial_score A init em uw token) states)"
    using ip by (intro comprehension_map) auto
  have pm: "python_max (map (initial_score A init em uw token) states) = Inr m"
    unfolding m_def using wf(2) by (intro python_max_Max) simp
  have f: "find (\<lambda>item. probability (snd item) = m) row = Some item"
    using v(4) by (simp add: V m_def row_def probabilities_initial_row)
  have keys: "map fst row = states" unfolding row_def by (rule keys_initial_row)
  have "find (\<lambda>k. \<exists>c. map_of row k = Some c \<and> probability c = m) (map fst row) = Some (fst item)"
    using wf(3) keys f by (intro find_keys[where P = "\<lambda>c. probability c = m"]) auto
  moreover have "find (\<lambda>k. \<exists>c. map_of row k = Some c \<and> probability c = m) states =
      find (\<lambda>s'. initial_prob A [token] init em uw s' = Inr m) states"
  proof (rule find_cong[OF refl])
    fix k assume k: "k \<in> set states"
    have "map_of row k =
        Some \<lparr>probability = initial_score A init em uw token k, backpointer = None\<rparr>"
      unfolding row_def initial_row_def using k by (rule map_of_keyed)
    then show "(\<exists>c. map_of row k = Some c \<and> probability c = m) =
        (initial_prob A [token] init em uw k = Inr m)"
      using ip[OF k] by auto
  qed
  ultimately have fs: "find (\<lambda>s'. initial_prob A [token] init em uw s' = Inr m) states =
      Some (fst item)"
    using keys by simp
  obtain t where ts: "ts = [t]" using v(3) by (cases ts) auto
  then have t: "t = fst item" using v(5) by simp
  have out: "viterbi A [token] n states init em tr = Inr (token @ ''/'' @ fst item)"
    using v(6) by (simp add: ts t pair_text_def)
  have il: "initial_loop A [token] init em uw states [[]] = Inr [row]"
    using wf initial_loop_closed[of states init em "[token]" "[]" A uw "[]"]
    by (simp add: row_def)
  have vm: "viterbi_matrix A [token] n states init em tr = Inr [row]"
    using v(1) V by simp
  have top: "m \<in> set (map (initial_score A init em uw token) states) \<and>
      (\<forall>x \<in> set (map (initial_score A init em uw token) states). x \<le> m)"
    unfolding m_def using wf(2) by (intro Max_props) simp
  have range: "[1..<length [token]] = []" by simp
  show ?thesis
    by (intro exI[of _ uw] exI[of _ "map (initial_score A init em uw token) states"]
          exI[of _ m] exI[of _ "fst item"] exI[of _ row] conjI)
       (fact u explicit probs pm conjunct1[OF top] conjunct2[OF top] fs out il range vm)+
qed

theorem single_token_tag_witness:
  "wellformed_model grid 10 ex_states near_initial near_emission ex_transition \<and>
   viterbi grid [''a''] 10 ex_states near_initial near_emission ex_transition = Inr ''a/N'' \<and>
   viterbi exact [''a''] 10 ex_states near_initial near_emission ex_transition = Inr ''a/V'' \<and>
   viterbi exact [''b''] 10 ex_states ex_initial ex_emission ex_transition = Inr ''b/V'' \<and>
   comprehension (initial_prob exact [''b''] ex_initial ex_emission (ln (1 / 10 * K))) ex_states =
     Inr [-4, -3] \<and>
   python_max [-4, -3] = Inr (-3) \<and>
   (\<exists>uw probs m s row.
      unknown_prob grid 10 = Inr uw \<and>
      (\<forall>s' \<in> set ex_states. \<exists>i e. near_initial s' = Some i \<and> near_emission s' = Some e \<and>
         initial_prob grid [''a''] near_initial near_emission uw s' =
           Inr (fadd grid i (table_get e ''a'' uw))) \<and>
      comprehension (initial_prob grid [''a''] near_initial near_emission uw) ex_states =
        Inr probs \<and>
      python_max probs = Inr m \<and>
      m \<in> set probs \<and> (\<forall>x \<in> set probs. x \<le> m) \<and>
      find (\<lambda>s'. initial_prob grid [''a''] near_initial near_emission uw s' = Inr m) ex_states =
        Some s \<and>
      viterbi grid [''a''] 10 ex_states near_initial near_emission ex_transition =
        Inr (''a'' @ ''/'' @ s) \<and>
      initial_loop grid [''a''] near_initial near_emission uw ex_states [[]] = Inr [row] \<and>
      [1..<length [''a'']] = [] \<and>
      viterbi_matrix grid [''a''] 10 ex_states near_initial near_emission ex_transition =
        Inr [row])"
proof -
  have h1: "wellformed_model grid 10 ex_states near_initial near_emission ex_transition"
    by (rule near_wellformed)
  have g: "viterbi grid [''a''] 10 ex_states near_initial near_emission ex_transition =
      Inr ''a/N''"
    using grid_sums
    by (simp add: grid_defs ex_states_def near_initial_def near_emission_def ex_transition_def)
  have e1: "viterbi exact [''a''] 10 ex_states near_initial near_emission ex_transition =
      Inr ''a/V''"
    by (simp add: eval_defs ex_states_def near_initial_def near_emission_def ex_transition_def)
  have e2: "viterbi exact [''b''] 10 ex_states ex_initial ex_emission ex_transition =
      Inr ''b/V''"
    by (simp add: eval_defs ex_states_def ex_initial_def ex_emission_def ex_transition_def)
  have e3: "comprehension (initial_prob exact [''b''] ex_initial ex_emission (ln (1 / 10 * K)))
      ex_states = Inr [-4, -3]"
    by (simp add: eval_defs ex_states_def ex_initial_def ex_emission_def)
  have e4: "python_max [-4, -3] = Inr (-3)" by (simp add: python_max_def)
  show ?thesis
    by (intro conjI) (fact h1 g e1 e2 e3 e4 single_token_tag[OF h1, of "''a''"])+
qed

subsection \<open>C8: the state of the last step\<close>

text \<open>
  C8: in every arithmetic, for a well-formed model and an observation of length at least
  1, the keys of the last row are the states in their declared order; \<^verbatim>\<open>max\<close> over
  the probabilities of the last row returns a value \<open>m\<close> that no cell of the row
  exceeds; and the last tag that \<open>backtrack_viterbi_matrix\<close> returns is the first state
  of that order whose cell in the last row has the probability \<open>m\<close>, a cell of the row.
\<close>

theorem final_state_is_first_maximum:
  assumes "wellformed_model A n states init em tr" and "obs \<noteq> []"
  shows "\<exists>V m s c ts.
      viterbi_matrix A obs n states init em tr = Inr V \<and>
      python_max (map (\<lambda>item. probability (snd item)) (last V)) = Inr m \<and>
      (\<forall>item \<in> set (last V). probability (snd item) \<le> m) \<and>
      (s, c) \<in> set (last V) \<and> probability c = m \<and>
      map fst (last V) = states \<and>
      find (\<lambda>item. probability (snd item) = m) (last V) = Some (s, c) \<and>
      find (\<lambda>s'. \<exists>c'. dict_item (last V) s' = Inr c' \<and> probability c' = m) states = Some s \<and>
      backtrack_viterbi_matrix V = Inr (map Some ts) \<and>
      ts \<noteq> [] \<and> last ts = s"
proof -
  obtain V ts item where v: "viterbi_matrix A obs n states init em tr = Inr V"
    "V = closed_trellis A obs n states init em tr"
    "backtrack_viterbi_matrix V = Inr (map Some ts)" "length ts = length obs"
    "find (\<lambda>item. probability (snd item) = Max (set (map (\<lambda>item. probability (snd item)) (last V))))
       (last V) = Some item" "last ts = fst item"
    using viterbi_closed[OF assms(1,2)] by blast
  define m where "m = Max (set (map (\<lambda>item. probability (snd item)) (last V)))"
  have wf: "states \<noteq> []" "distinct states"
    using assms(1) by (auto simp: wellformed_model_def)
  have ok: "trellis_ok states V" unfolding v(2) using wf by (rule closed_trellis_ok)
  then have ne: "V \<noteq> []" by (simp add: trellis_ok_def)
  have keys: "map fst (last V) = states"
    using trellis_ok_keys[OF ok, of "length V - 1"] ne by (simp add: last_conv_nth)
  then have rne: "last V \<noteq> []" using wf by auto
  have pm: "python_max (map (\<lambda>item. probability (snd item)) (last V)) = Inr m"
    unfolding m_def using rne by (intro python_max_Max) simp
  have f: "find (\<lambda>item. probability (snd item) = m) (last V) = Some (fst item, snd item)"
    using v(5) by (simp add: m_def)
  have "find (\<lambda>k. \<exists>c. map_of (last V) k = Some c \<and> probability c = m) (map fst (last V)) =
      Some (fst item)"
    using wf(2) keys f by (intro find_keys[where P = "\<lambda>c. probability c = m"]) auto
  moreover have "(\<lambda>k. \<exists>c. map_of (last V) k = Some c \<and> probability c = m) =
      (\<lambda>s'. \<exists>c'. dict_item (last V) s' = Inr c' \<and> probability c' = m)"
    by (auto simp: dict_item_def fun_eq_iff split: option.splits)
  ultimately have fs: "find (\<lambda>s'. \<exists>c'. dict_item (last V) s' = Inr c' \<and> probability c' = m) states =
      Some (fst item)"
    using keys by simp
  have tne: "ts \<noteq> []" using v(4) assms(2) by auto
  have "m \<in> set (map (\<lambda>item. probability (snd item)) (last V)) \<and>
      (\<forall>x \<in> set (map (\<lambda>item. probability (snd item)) (last V)). x \<le> m)"
    unfolding m_def using rne by (intro Max_props) simp
  then have top: "\<forall>item \<in> set (last V). probability (snd item) \<le> m" by simp
  have mem: "(fst item, snd item) \<in> set (last V)" and pr: "probability (snd item) = m"
    using f by (auto simp: find_Some_iff)
  have l: "last ts = fst item" by (rule v(6))
  show ?thesis
    by (intro exI[of _ V] exI[of _ m] exI[of _ "fst item"] exI[of _ "snd item"] exI[of _ ts]
          conjI)
       (fact v(1) pm top mem pr keys f fs v(3) tne l)+
qed

theorem final_state_is_first_maximum_witness:
  "wellformed_model exact 10 ex_states ex_initial ex_emission ex_transition \<and>
   ex_observation \<noteq> [] \<and>
   viterbi_matrix exact ex_observation 10 ex_states ex_initial ex_emission ex_transition =
     Inr ex_trellis \<and>
   map (\<lambda>item. probability (snd item)) (last ex_trellis) = [-7, -4] \<and>
   python_max [-7, -4] = Inr (-4) \<and>
   backtrack_viterbi_matrix ex_trellis = Inr [Some ''N'', Some ''V''] \<and>
   viterbi_matrix grid [''a''] 10 ex_states near_initial near_emission ex_transition =
     Inr [[(''N'', \<lparr>probability = -1, backpointer = None\<rparr>),
           (''V'', \<lparr>probability = -1, backpointer = None\<rparr>)]] \<and>
   backtrack_viterbi_matrix
     [[(''N'', \<lparr>probability = -1, backpointer = None\<rparr>),
       (''V'', \<lparr>probability = -1, backpointer = None\<rparr>)]] = Inr [Some ''N''] \<and>
   (\<exists>V m s c ts.
      viterbi_matrix exact ex_observation 10 ex_states ex_initial ex_emission ex_transition =
        Inr V \<and>
      python_max (map (\<lambda>item. probability (snd item)) (last V)) = Inr m \<and>
      (\<forall>item \<in> set (last V). probability (snd item) \<le> m) \<and>
      (s, c) \<in> set (last V) \<and> probability c = m \<and>
      map fst (last V) = ex_states \<and>
      find (\<lambda>item. probability (snd item) = m) (last V) = Some (s, c) \<and>
      find (\<lambda>s'. \<exists>c'. dict_item (last V) s' = Inr c' \<and> probability c' = m) ex_states = Some s \<and>
      backtrack_viterbi_matrix V = Inr (map Some ts) \<and>
      ts \<noteq> [] \<and> last ts = s)"
proof -
  have h1: "wellformed_model exact 10 ex_states ex_initial ex_emission ex_transition"
    by (rule ex_wellformed)
  have h2: "ex_observation \<noteq> []" by (rule ex_observation_nonempty)
  have e1: "viterbi_matrix exact ex_observation 10 ex_states ex_initial ex_emission
      ex_transition = Inr ex_trellis"
    by (rule ex_viterbi_matrix)
  have e2: "map (\<lambda>item. probability (snd item)) (last ex_trellis) = [-7, -4]"
    by (simp add: ex_trellis_def)
  have e3: "python_max [-7, -4] = Inr (-4)" by (simp add: python_max_def)
  have e4: "backtrack_viterbi_matrix ex_trellis = Inr [Some ''N'', Some ''V'']"
    by (simp add: eval_defs ex_trellis_def)
  have g1: "viterbi_matrix grid [''a''] 10 ex_states near_initial near_emission ex_transition =
      Inr [[(''N'', \<lparr>probability = -1, backpointer = None\<rparr>),
            (''V'', \<lparr>probability = -1, backpointer = None\<rparr>)]]"
    by (rule near_initial_matrix)
  have g2: "backtrack_viterbi_matrix
      [[(''N'', \<lparr>probability = -1, backpointer = None\<rparr>),
        (''V'', \<lparr>probability = -1, backpointer = None\<rparr>)]] = Inr [Some ''N'']"
    by (simp add: eval_defs)
  show ?thesis
    by (intro conjI)
       (fact h1 h2 e1 e2 e3 e4 g1 g2 final_state_is_first_maximum[OF h1 h2])+
qed

subsection \<open>C9: an empty observation\<close>

text \<open>
  C9: \<^verbatim>\<open>viterbi\<close> on an observation of length zero raises, whatever the model and
  the arithmetic are: a zero vocabulary size or an empty state list raises
  ZeroDivisionError, a logarithm whose argument is not positive (a negative vocabulary
  size) raises ValueError, and otherwise the first pass of the loop of lines 23 to 28
  raises KeyError for a state the tables miss or IndexError at \<^verbatim>\<open>observation[0]\<close>.
  No tag sequence is returned.
\<close>

theorem empty_observation_raises:
  "\<exists>e. viterbi A [] distinct_word_count states initial_state_probability
          emission_probability transition_probability = Inl e"
proof -
  have ip: "\<exists>e. initial_prob A [] init em uw s = Inl e" for init em uw s
    by (cases "init s"; cases "em s")
       (simp_all add: initial_prob_def table_item_def list_item_def)
  have il: "\<exists>e. initial_loop A [] init em uw (s # rest) V = Inl e" for init em uw s rest V
    using ip[of init em uw s] by auto
  have vm: "\<exists>e. viterbi_matrix A [] n sts init em tr = Inl e" for n sts init em tr
  proof (cases "unknown_prob A n")
    case (Inl e)
    then show ?thesis by (simp add: viterbi_matrix_def)
  next
    case uw: (Inr uw)
    show ?thesis
    proof (cases sts)
      case Nil
      then have "unknown_prob A (int (length sts)) = Inl ZeroDivisionError"
        by (simp add: unknown_prob_def)
      then show ?thesis by (simp add: viterbi_matrix_def uw)
    next
      case (Cons s rest)
      show ?thesis
      proof (cases "unknown_prob A (int (length sts))")
        case (Inl e)
        then show ?thesis by (simp add: viterbi_matrix_def uw)
      next
        case (Inr us)
        obtain e where "initial_loop A [] init em uw (s # rest) [[]] = Inl e"
          using il by blast
        then show ?thesis using Inr Cons by (simp add: viterbi_matrix_def uw)
      qed
    qed
  qed
  obtain e where "viterbi_matrix A [] distinct_word_count states initial_state_probability
      emission_probability transition_probability = Inl e"
    using vm by blast
  then show ?thesis by (simp add: viterbi_def)
qed

subsection \<open>C10: a blank input line\<close>

text \<open>
  C10 as stated says that the empty token of a blank line is scored with the unknown-word
  fallback. The score is \<^verbatim>\<open>emission_probability[state].get('', unknown_word_prob)\<close>: a
  model whose emission tables have an entry for the empty token is scored with that
  entry. With such tables the cells of the blank line are \<open>-2\<close> and \<open>-6\<close> and the
  output is \<open>/N\<close>, where the fallback would give \<open>-2 + ln (1/1000)\<close> and
  \<open>-1 + ln (1/1000)\<close>, whose maximum is at \<open>V\<close>.
\<close>

theorem blank_line_fallback_counterexample:
  "list_all isspace ('' '' @ [CHR 0x0A]) \<and>
   wellformed_model exact 10 ex_states blank_initial blank_emission ex_transition \<and>
   split_space (strip ('' '' @ [CHR 0x0A])) = [''''] \<and>
   unknown_prob exact 10 = Inr (ln (1 / 1000)) \<and>
   viterbi_matrix exact [''''] 10 ex_states blank_initial blank_emission ex_transition =
     Inr [[(''N'', \<lparr>probability = -2, backpointer = None\<rparr>),
           (''V'', \<lparr>probability = -6, backpointer = None\<rparr>)]] \<and>
   (-2::real) \<noteq> -2 + ln (1 / 1000) \<and>
   python_max [-2 + ln (1 / 1000), -1 + ln (1 / 1000)] = Inr (-1 + ln (1 / 1000)) \<and>
   tag_sentence exact ['' '' @ [CHR 0x0A]] 10 ex_states blank_initial blank_emission ex_transition =
     Inr (''/N'' @ [CHR 0x0A])"
  by (simp add: lines_defs eval_defs wellformed_model_def ex_states_def blank_initial_def
      blank_emission_def ex_transition_def)

text \<open>
  C10, amended: for a well-formed model and an input line of whitespace only (empty, only
  spaces, with or without the newline), the observation is the single empty token; every
  state \<open>s'\<close> is scored \<^verbatim>\<open>initial[s'] + emission[s'].get('', unknown_word_prob)\<close>, which
  is the unknown-word fallback for a state whose emission table has no entry for the
  empty token; the output line is \<open>/s\<close> for a state \<open>s\<close>; and the observation of no
  line at all is empty.
\<close>

theorem blank_line_decodes_empty_token:
  assumes "wellformed_model A n states init em tr" and "list_all isspace line"
  shows "split_space (strip line) = [''''] \<and>
     (\<forall>l. split_space (strip l) \<noteq> []) \<and>
     (\<exists>uw s.
        unknown_prob A n = Inr uw \<and>
        (\<forall>s' \<in> set states. \<exists>i e. init s' = Some i \<and> em s' = Some e \<and>
           initial_prob A (split_space (strip line)) init em uw s' =
             Inr (fadd A i (table_get e '''' uw)) \<and>
           (e '''' = None \<longrightarrow>
              initial_prob A (split_space (strip line)) init em uw s' = Inr (fadd A i uw))) \<and>
        s \<in> set states \<and>
        viterbi A (split_space (strip line)) n states init em tr = Inr (''/'' @ s) \<and>
        line_loop A n states init em tr [line] [] = Inr [''/'' @ s])"
proof -
  define uw where "uw = flog A (smoothing_argument A (real_of_int n))"
  have wf: "n \<noteq> 0" "set states \<subseteq> dom init" "set states \<subseteq> dom em"
    using assms(1) by (auto simp: wellformed_model_def)
  have obs: "split_space (strip line) = ['''']"
    using strip_blank[OF assms(2)] by simp
  have never: "\<forall>l. split_space (strip l) \<noteq> []"
    by (simp add: split_space_nonempty)
  have u: "unknown_prob A n = Inr uw" unfolding uw_def using assms(1) by (rule wellformed_unknown_prob(1))
  have scores: "\<forall>s' \<in> set states. \<exists>i e. init s' = Some i \<and> em s' = Some e \<and>
           initial_prob A (split_space (strip line)) init em uw s' =
             Inr (fadd A i (table_get e '''' uw)) \<and>
           (e '''' = None \<longrightarrow>
              initial_prob A (split_space (strip line)) init em uw s' = Inr (fadd A i uw))"
  proof
    fix s' assume "s' \<in> set states"
    then obtain i e where ie: "init s' = Some i" "em s' = Some e" using wf(2,3) by blast
    have "initial_prob A [''''] init em uw s' = Inr (fadd A i (table_get e '''' uw))"
      using initial_prob_explicit[of init s' i em e "['''']" A uw] ie by simp
    then show "\<exists>i e. init s' = Some i \<and> em s' = Some e \<and>
           initial_prob A (split_space (strip line)) init em uw s' =
             Inr (fadd A i (table_get e '''' uw)) \<and>
           (e '''' = None \<longrightarrow>
              initial_prob A (split_space (strip line)) init em uw s' = Inr (fadd A i uw))"
      using ie by (auto simp: obs table_get_def)
  qed
  obtain ts where ts: "length ts = length ['''']" "set ts \<subseteq> set states"
    "viterbi A [''''] n states init em tr = Inr (join_spaces (map pair_text (zip [''''] ts)))"
    using viterbi_closed[OF assms(1), of "['''']"] by auto
  obtain s where s: "ts = [s]" using ts(1) by (cases ts) auto
  have mem: "s \<in> set states" using ts(2) s by simp
  have out: "viterbi A (split_space (strip line)) n states init em tr = Inr (''/'' @ s)"
    using ts(3) by (simp add: obs s pair_text_def)
  have ll: "line_loop A n states init em tr [line] [] = Inr [''/'' @ s]"
    using out by simp
  show ?thesis
    using obs never u scores mem out ll by blast
qed

theorem blank_line_decodes_empty_token_witness:
  "wellformed_model exact 10 ex_states ex_initial ex_emission ex_transition \<and>
   list_all isspace ('' '' @ [CHR 0x0A]) \<and>
   split_space (strip ('' '' @ [CHR 0x0A])) = [''''] \<and>
   (\<exists>uw s.
      unknown_prob exact 10 = Inr uw \<and> s \<in> set ex_states \<and>
      viterbi exact (split_space (strip ('' '' @ [CHR 0x0A]))) 10 ex_states ex_initial ex_emission
        ex_transition = Inr (''/'' @ s) \<and>
      line_loop exact 10 ex_states ex_initial ex_emission ex_transition ['' '' @ [CHR 0x0A]] [] =
        Inr [''/'' @ s])"
proof -
  have h1: "wellformed_model exact 10 ex_states ex_initial ex_emission ex_transition"
    by (rule ex_wellformed)
  have h2: "list_all isspace ('' '' @ [CHR 0x0A])" by (simp add: isspace_def)
  show ?thesis
    using h1 h2 blank_line_decodes_empty_token[OF h1 h2] by blast
qed

end
